theory Spec2Isabelle
  imports Main "HOL-Library.AList" "HOL-Library.Sublist"
begin

section \<open>Python values, exceptions and observable events\<close>

text \<open>
  The reader under verification is \<^verbatim>\<open>GoogleDriveReader\<close> (drive/base.py). Its methods are
  embedded as functions with the names of the source, under these conventions.
  \<^item> Exceptions are values of type \<open>error\<close>; a Python expression that may raise has type
    \<open>error + 'a\<close>, with \<open>Inl\<close> for the raised exception. Python's \<^verbatim>\<open>None\<close> result is
    \<open>None\<close> of an option type.
  \<^item> The Drive service, the authentication libraries and the host (temporary directories,
    text extraction) are parameters: records of the functions the code calls.
  \<^item> What a method does besides returning is returned with its result: the remote calls
    and log entries it made, in order (an \<open>event list\<close>), the file system after it, and the
    \<^verbatim>\<open>mime_types\<close> list object after it, which the callee shares with its caller.
  \<^item> A method with a loop that the provider can keep running takes fuel and returns an
    outer option: \<open>None\<close> there means that it has not returned within the fuel.
  \<^item> Of the pydantic base class only the initialisation of the private attributes is
    embedded: \<^verbatim>\<open>super().__init__()\<close> gives each private attribute that is declared with a
    default that default.
\<close>

datatype error =
    HttpError string
  | OSError string
  | TypeError string
  | KeyError string
  | IndexError string
  | ValueError string
  | AuthError string
  | ExtractionError string

text \<open>The few Python values whose truthiness the code tests on a private attribute.\<close>

datatype pyval = PyNone | PyBool bool | PyTuple "pyval list"

fun truthy :: "pyval \<Rightarrow> bool" where
  "truthy PyNone = False"
| "truthy (PyBool b) = b"
| "truthy (PyTuple xs) = (xs \<noteq> [])"

text \<open>Truthiness of an \<^verbatim>\<open>Optional[str]\<close>: \<^verbatim>\<open>None\<close> and the empty string are falsy.\<close>

fun truthy_str :: "string option \<Rightarrow> bool" where
  "truthy_str None = False"
| "truthy_str (Some s) = (s \<noteq> [])"

type_synonym config_dict = "(string \<times> string) list"

section \<open>The remote provider\<close>

text \<open>
  A file resource as the Drive API returns it. \<^verbatim>\<open>owners\<close> is absent for items of a shared
  drive and \<^verbatim>\<open>driveId\<close> is present only for them; the owners are kept by their display
  names.
\<close>

record drive_file =
  f_id :: string
  f_name :: string
  f_mimeType :: string
  f_createdTime :: string
  f_modifiedTime :: string
  f_owners :: "string list option"
  f_driveId :: "string option"

text \<open>
  The keyword arguments of \<^verbatim>\<open>files().list(...)\<close>. The API takes the continuation token of
  the previous page as \<^verbatim>\<open>pageToken\<close>; a request built without it asks for the first page.
\<close>

record list_request =
  lr_q :: string
  lr_driveId :: "string option"
  lr_corpora :: "string option"
  lr_includeItemsFromAllDrives :: bool
  lr_supportsAllDrives :: bool
  lr_fields :: string
  lr_pageToken :: "string option"

record list_response =
  resp_files :: "drive_file list option"
  resp_nextPageToken :: "string option"

text \<open>
  The keyword arguments of \<^verbatim>\<open>files().get(...)\<close>. \<^verbatim>\<open>fileId\<close> is a required parameter: the client
  library drops arguments whose value is \<^verbatim>\<open>None\<close> and raises \<^verbatim>\<open>TypeError\<close> for a missing
  required one, before anything is sent.
\<close>

record get_request =
  gr_fileId :: string
  gr_supportsAllDrives :: bool
  gr_fields :: "string option"

datatype media_request =
    ExportMedia string string
  | GetMedia string

text \<open>
  The client object returned by \<^verbatim>\<open>build("drive", "v3", ...)\<close>: what each remote call answers.
  \<open>next_chunk r k\<close> is the answer to the \<open>k\<close>-th \<^verbatim>\<open>downloader.next_chunk()\<close> on request
  \<open>r\<close>: the bytes received and the \<^verbatim>\<open>done\<close> flag. The enumeration and the materialization
  build this client first thing, from the credential of the reader; their embeddings take
  the client built, and the callers below pass \<open>build h (priv_creds rd)\<close>. A listing is
  a query: the same request gets the same answer.
\<close>

record service =
  files_list :: "list_request \<Rightarrow> error + list_response"
  files_get :: "get_request \<Rightarrow> error + drive_file"
  next_chunk :: "media_request \<Rightarrow> nat \<Rightarrow> error + (string \<times> bool)"

datatype remote_call =
    DriveList list_request
  | DriveGet get_request
  | DriveNextChunk media_request nat
  | TokenRefresh
  | ConsentFlow

datatype log_entry =
    LogError string error
  | LogWarning string

datatype event = Call remote_call | Log log_entry

section \<open>The local file system\<close>

record filesystem =
  fs_dirs :: "string set"
  fs_files :: "(string \<times> string) list"

definition is_file :: "filesystem \<Rightarrow> string \<Rightarrow> bool" where
  "is_file fs path = (map_of (fs_files fs) path \<noteq> None)"

text \<open>\<^verbatim>\<open>os.path.dirname\<close> and \<^verbatim>\<open>os.path.join\<close> of two components, as posixpath has them.\<close>

definition dirname :: "string \<Rightarrow> string" where
  "dirname p =
     (let head = rev (dropWhile (\<lambda>c. c \<noteq> CHR ''/'') (rev p))
      in if head \<noteq> [] \<and> \<not> list_all (\<lambda>c. c = CHR ''/'') head
         then rev (dropWhile (\<lambda>c. c = CHR ''/'') (rev head))
         else head)"

definition path_join :: "string \<Rightarrow> string \<Rightarrow> string" where
  "path_join a b =
     (if b \<noteq> [] \<and> hd b = CHR ''/'' then b
      else if a = [] \<or> last a = CHR ''/'' then a @ b
      else a @ ''/'' @ b)"

text \<open>
  \<^verbatim>\<open>open(path, "w")\<close> followed by one \<^verbatim>\<open>write\<close>: fails when the path is a directory or
  its parent directory does not exist (the empty parent is the working directory).
\<close>

definition open_write :: "filesystem \<Rightarrow> string \<Rightarrow> string \<Rightarrow> error + filesystem" where
  "open_write fs path data =
     (if path \<in> fs_dirs fs then Inl (OSError ''IsADirectoryError'')
      else if dirname path \<noteq> [] \<and> dirname path \<notin> fs_dirs fs
      then Inl (OSError ''FileNotFoundError'')
      else Inr (fs\<lparr>fs_files := AList.update path data (fs_files fs)\<rparr>))"

text \<open>Removing a directory tree: the directory and every entry below it.\<close>

definition below :: "string \<Rightarrow> string \<Rightarrow> bool" where
  "below d p = (p = d \<or> prefix (d @ ''/'') p)"

definition rmtree :: "string \<Rightarrow> filesystem \<Rightarrow> filesystem" where
  "rmtree d fs =
     fs\<lparr>fs_dirs := {p \<in> fs_dirs fs. \<not> below d p},
        fs_files := filter (\<lambda>(p, _). \<not> below d p) (fs_files fs)\<rparr>"

section \<open>The reader and its construction\<close>

record mime_rule =
  mimetype :: string
  extension :: string

record credentials =
  token :: "string option"
  expired :: bool
  refresh_token :: "string option"

text \<open>
  google-auth's \<^verbatim>\<open>Credentials.valid\<close>: the credential has a token and is not expired.
\<close>

definition valid :: "credentials \<Rightarrow> bool" where
  "valid c = (token c \<noteq> None \<and> \<not> expired c)"

record service_credentials =
  sa_info :: config_dict
  sa_scopes :: "string list"

datatype creds = User credentials | ServiceAccount service_credentials

record reader =
  client_config :: "config_dict option"
  authorized_user_info :: "config_dict option"
  service_account_key :: "config_dict option"
  token_path :: string
  priv_is_cloud :: pyval
  priv_creds :: "creds option"
  priv_mimetypes :: "(string \<times> mime_rule) list"

definition SCOPES :: "string list" where
  "SCOPES = [''https://www.googleapis.com/auth/drive.readonly'']"

definition mimetypes_table :: "(string \<times> mime_rule) list" where
  "mimetypes_table =
     [(''application/vnd.google-apps.document'',
       \<lparr>mimetype = ''application/vnd.openxmlformats-officedocument.wordprocessingml.document'',
        extension = ''.docx''\<rparr>),
      (''application/vnd.google-apps.spreadsheet'',
       \<lparr>mimetype = ''application/vnd.openxmlformats-officedocument.spreadsheetml.sheet'',
        extension = ''.xlsx''\<rparr>),
      (''application/vnd.google-apps.presentation'',
       \<lparr>mimetype = ''application/vnd.openxmlformats-officedocument.presentationml.presentation'',
        extension = ''.pptx''\<rparr>)]"

text \<open>
  One of the three configuration sources of \<^verbatim>\<open>__init__\<close>: the value passed directly wins;
  otherwise the file at the path is read and decoded when it exists
  (\<^verbatim>\<open>if x is None and os.path.isfile(path)\<close>); \<open>json_load\<close> is the decoder.
\<close>

definition load_config ::
  "(string \<Rightarrow> error + config_dict) \<Rightarrow> filesystem \<Rightarrow> config_dict option \<Rightarrow> string
     \<Rightarrow> error + config_dict option" where
  "load_config json_load fs given path =
     (case given of
        Some d \<Rightarrow> Inr (Some d)
      | None \<Rightarrow>
          (case map_of (fs_files fs) path of
             None \<Rightarrow> Inr None
           | Some content \<Rightarrow>
               (case json_load content of Inl e \<Rightarrow> Inl e | Inr d \<Rightarrow> Inr (Some d))))"

text \<open>
  The declarations of the private attributes: \<^verbatim>\<open>_is_cloud: bool = PrivateAttr(default=False)\<close>,
  while \<^verbatim>\<open>_creds\<close> and \<^verbatim>\<open>_mimetypes\<close> are declared with \<^verbatim>\<open>PrivateAttr()\<close>, without a default.
  The initialisation of the base class sets the first to its default and leaves the other
  two as they are.
\<close>

definition init_private_attributes :: "reader \<Rightarrow> reader" where
  "init_private_attributes rd = rd\<lparr>priv_is_cloud := PyBool False\<rparr>"

text \<open>
  \<^verbatim>\<open>__init__\<close>. It assigns the private attributes first, \<^verbatim>\<open>_is_cloud\<close> being assigned
  \<^verbatim>\<open>(is_cloud,)\<close>, a tuple of length one holding the argument; it reads the configuration; and
  it calls \<^verbatim>\<open>super().__init__(...)\<close> last, which initialises the private attributes again. So
  the value assigned to \<^verbatim>\<open>_is_cloud\<close> does not reach the constructed reader.
\<close>

definition init ::
  "(string \<Rightarrow> error + config_dict) \<Rightarrow> filesystem \<Rightarrow> bool option \<Rightarrow> string \<Rightarrow> string \<Rightarrow> string
     \<Rightarrow> config_dict option \<Rightarrow> config_dict option \<Rightarrow> config_dict option \<Rightarrow> error + reader" where
  "init json_load fs is_cloud credentials_path token_path' service_account_key_path
        client_config' authorized_user_info' service_account_key' =
     (case load_config json_load fs client_config' credentials_path of
        Inl e \<Rightarrow> Inl e
      | Inr cc \<Rightarrow>
     (case load_config json_load fs authorized_user_info' token_path' of
        Inl e \<Rightarrow> Inl e
      | Inr aui \<Rightarrow>
     (case load_config json_load fs service_account_key' service_account_key_path of
        Inl e \<Rightarrow> Inl e
      | Inr sak \<Rightarrow>
         if cc = None \<and> sak = None
         then Inl (ValueError ''Must specify `client_config` or `service_account_key`.'')
         else Inr (init_private_attributes
                     \<lparr>client_config = cc,
                      authorized_user_info = aui,
                      service_account_key = sak,
                      token_path = token_path',
                      priv_is_cloud =
                        PyTuple [case is_cloud of None \<Rightarrow> PyNone | Some b \<Rightarrow> PyBool b],
                      priv_creds = None,
                      priv_mimetypes = mimetypes_table\<rparr>))))"

section \<open>Credential resolution\<close>

text \<open>
  The authentication libraries the reader calls. \<open>from_client_config\<close> builds the
  \<^verbatim>\<open>InstalledAppFlow\<close> and \<open>run_local_server\<close> runs its interactive consent;
  \<open>refresh\<close> is \<^verbatim>\<open>creds.refresh(Request())\<close>, which updates the credential in place.
\<close>

type_synonym flow = "config_dict \<times> string list"

record auth_lib =
  from_authorized_user_info :: "config_dict \<Rightarrow> string list \<Rightarrow> error + credentials"
  from_service_account_info :: "config_dict \<Rightarrow> string list \<Rightarrow> error + service_credentials"
  refresh :: "credentials \<Rightarrow> error + credentials"
  from_client_config :: "config_dict option \<Rightarrow> string list \<Rightarrow> error + flow"
  run_local_server :: "flow \<Rightarrow> error + credentials"
  to_json :: "credentials \<Rightarrow> string"

text \<open>The \<^verbatim>\<open>else\<close> branch of the refresh test: the consent flow from the client configuration.\<close>

definition consent :: "auth_lib \<Rightarrow> reader \<Rightarrow> (error + credentials) \<times> event list" where
  "consent lib rd =
     (case from_client_config lib (client_config rd) SCOPES of
        Inl e \<Rightarrow> (Inl e, [])
      | Inr fl \<Rightarrow> (run_local_server lib fl, [Call ConsentFlow]))"

text \<open>\<^verbatim>\<open>if creds and creds.expired and creds.refresh_token: ... else: ...\<close>\<close>

definition refresh_or_consent ::
  "auth_lib \<Rightarrow> reader \<Rightarrow> credentials option \<Rightarrow> (error + credentials) \<times> event list" where
  "refresh_or_consent lib rd creds =
     (case creds of
        None \<Rightarrow> consent lib rd
      | Some c \<Rightarrow>
          if expired c \<and> truthy_str (refresh_token c)
          then (refresh lib c, [Call TokenRefresh])
          else consent lib rd)"

text \<open>
  The part of \<^verbatim>\<open>_get_credentials\<close> after the user credential, if any, has been built:
  \<^verbatim>\<open>if not creds or not creds.valid:\<close> log in, then save unless \<^verbatim>\<open>self._is_cloud\<close> is truthy.
\<close>

definition login ::
  "auth_lib \<Rightarrow> reader \<Rightarrow> filesystem \<Rightarrow> credentials option
     \<Rightarrow> (error + creds) \<times> filesystem \<times> event list" where
  "login lib rd fs creds =
     (case (case creds of None \<Rightarrow> None | Some c \<Rightarrow> if valid c then Some c else None) of
        Some c \<Rightarrow> (Inr (User c), fs, [])
      | None \<Rightarrow>
          (case refresh_or_consent lib rd creds of
             (Inl e, evs) \<Rightarrow> (Inl e, fs, evs)
           | (Inr c, evs) \<Rightarrow>
               if \<not> truthy (priv_is_cloud rd)
               then (case open_write fs (token_path rd) (to_json lib c) of
                       Inl e \<Rightarrow> (Inl e, fs, evs)
                     | Inr fs' \<Rightarrow> (Inr (User c), fs', evs))
               else (Inr (User c), fs, evs)))"

definition get_credentials ::
  "auth_lib \<Rightarrow> reader \<Rightarrow> filesystem \<Rightarrow> (error + creds) \<times> filesystem \<times> event list" where
  "get_credentials lib rd fs =
     (case authorized_user_info rd of
        Some info \<Rightarrow>
          (case from_authorized_user_info lib info SCOPES of
             Inl e \<Rightarrow> (Inl e, fs, [])
           | Inr c \<Rightarrow> login lib rd fs (Some c))
      | None \<Rightarrow>
          (case service_account_key rd of
             Some key \<Rightarrow>
               (case from_service_account_info lib key SCOPES of
                  Inl e \<Rightarrow> (Inl e, fs, [])
                | Inr sc \<Rightarrow> (Inr (ServiceAccount sc), fs, []))
           | None \<Rightarrow> login lib rd fs None))"

section \<open>Metadata enumeration\<close>

record file_meta =
  fm_id :: string
  fm_author :: string
  fm_name :: string
  fm_mimeType :: string
  fm_createdTime :: string
  fm_modifiedTime :: string

definition folder_mime_type :: string where
  "folder_mime_type = ''application/vnd.google-apps.folder''"

definition sq :: string where
  "sq = [CHR 0x27]"

fun join :: "string \<Rightarrow> string list \<Rightarrow> string" where
  "join sep [] = []"
| "join sep [x] = x"
| "join sep (x # y # ys) = x @ sep @ join sep (y # ys)"

text \<open>
  \<^verbatim>\<open>if mime_types: if folder_mime_type not in mime_types: mime_types.append(...)\<close>. The list
  is the caller's object, so the value after the statement is what the caller sees.
\<close>

definition keep_recursiveness :: "string list option \<Rightarrow> string list option" where
  "keep_recursiveness mime_types =
     (case mime_types of
        None \<Rightarrow> None
      | Some ms \<Rightarrow>
          if ms \<noteq> [] \<and> folder_mime_type \<notin> set ms then Some (ms @ [folder_mime_type])
          else Some ms)"

definition mime_clause :: "string \<Rightarrow> string" where
  "mime_clause mime_type = ''mimeType='' @ sq @ mime_type @ sq"

text \<open>The query string, from the list as it is after \<open>keep_recursiveness\<close>.\<close>

definition build_query :: "string \<Rightarrow> string list option \<Rightarrow> string option \<Rightarrow> string" where
  "build_query folder_id mime_types query_string =
     (let query = ''('' @ sq @ folder_id @ sq @ '' in parents)'';
          query = (case mime_types of
                     None \<Rightarrow> query
                   | Some ms \<Rightarrow>
                       if ms \<noteq> []
                       then query @ '' and ('' @ join '' or '' (map mime_clause ms) @ '')''
                       else query);
          query = (case query_string of
                     None \<Rightarrow> query
                   | Some qs \<Rightarrow>
                       if qs \<noteq> []
                       then query @ '' and (('' @ mime_clause folder_mime_type @ '') or (''
                              @ qs @ ''))''
                       else query)
      in query)"

text \<open>\<^verbatim>\<open>results.get("files", [])\<close>\<close>

definition items_of :: "list_response \<Rightarrow> drive_file list" where
  "items_of results = (case resp_files results of None \<Rightarrow> [] | Some fs \<Rightarrow> fs)"

text \<open>The two shapes of the listing call; neither passes a page token.\<close>

definition make_list_request :: "string option \<Rightarrow> string \<Rightarrow> list_request" where
  "make_list_request drive_id query =
     (if truthy_str drive_id
      then \<lparr>lr_q = query, lr_driveId = drive_id, lr_corpora = Some ''drive'',
            lr_includeItemsFromAllDrives = True, lr_supportsAllDrives = True,
            lr_fields = ''*'', lr_pageToken = None\<rparr>
      else \<lparr>lr_q = query, lr_driveId = None, lr_corpora = None,
            lr_includeItemsFromAllDrives = True, lr_supportsAllDrives = True,
            lr_fields = ''*'', lr_pageToken = None\<rparr>)"

text \<open>
  The \<^verbatim>\<open>while True\<close> loop over the pages. It may run forever, so it takes fuel: \<open>None\<close>
  means that the loop has not returned within the fuel.
\<close>

fun fetch_pages ::
  "nat \<Rightarrow> service \<Rightarrow> string option \<Rightarrow> string \<Rightarrow> drive_file list
     \<Rightarrow> ((error + drive_file list) \<times> event list) option" where
  "fetch_pages 0 svc drive_id query items = None"
| "fetch_pages (Suc n) svc drive_id query items =
     (let req = make_list_request drive_id query in
      case files_list svc req of
        Inl e \<Rightarrow> Some (Inl e, [Call (DriveList req)])
      | Inr results \<Rightarrow>
          (let items' = items @ items_of results in
           case resp_nextPageToken results of
             None \<Rightarrow> Some (Inr items', [Call (DriveList req)])
           | Some page_token \<Rightarrow>
               map_option (\<lambda>(r, evs). (r, Call (DriveList req) # evs))
                 (fetch_pages n svc drive_id query items')))"

text \<open>Author resolution and the six-field tuple of one item.\<close>

definition author_of :: "drive_file \<Rightarrow> error + string" where
  "author_of item =
     (if f_driveId item \<noteq> None then Inr ''Shared Drive''
      else (case f_owners item of
              None \<Rightarrow> Inl (KeyError ''owners'')
            | Some [] \<Rightarrow> Inl (IndexError ''list index out of range'')
            | Some (owner # _) \<Rightarrow> Inr owner))"

definition file_meta_of :: "drive_file \<Rightarrow> error + file_meta" where
  "file_meta_of item =
     (case author_of item of
        Inl e \<Rightarrow> Inl e
      | Inr author \<Rightarrow>
          Inr \<lparr>fm_id = f_id item, fm_author = author, fm_name = f_name item,
               fm_mimeType = f_mimeType item, fm_createdTime = f_createdTime item,
               fm_modifiedTime = f_modifiedTime item\<rparr>)"

text \<open>
  The boundary of \<^verbatim>\<open>_get_fileids_meta\<close>: \<^verbatim>\<open>except Exception\<close> logs and the function falls
  off its end, returning \<^verbatim>\<open>None\<close>. The middle component is the \<^verbatim>\<open>mime_types\<close> list object
  after the call.
\<close>

definition enumeration_failed :: string where
  "enumeration_failed = ''An error occurred while getting fileids metadata''"

fun catch_enumeration ::
  "(error + file_meta list) \<times> string list option \<times> event list
     \<Rightarrow> file_meta list option \<times> string list option \<times> event list" where
  "catch_enumeration (Inl e, ms, evs) = (None, ms, evs @ [Log (LogError enumeration_failed e)])"
| "catch_enumeration (Inr metas, ms, evs) = (Some metas, ms, evs)"

definition after_events :: "event list \<Rightarrow> ('a \<times> 'b \<times> event list) option \<Rightarrow> ('a \<times> 'b \<times> event list) option" where
  "after_events evs r = map_option (\<lambda>(x, y, evs'). (x, y, evs @ evs')) r"

text \<open>
  The body of the \<^verbatim>\<open>try\<close> of \<^verbatim>\<open>_get_fileids_meta\<close> and its loop over the accumulated items.
  The recursion into a subfolder goes through the method itself, so through its
  \<^verbatim>\<open>except\<close>; extending the result list by \<^verbatim>\<open>None\<close> raises \<^verbatim>\<open>TypeError\<close>.
\<close>

fun get_fileids_meta_try ::
  "nat \<Rightarrow> service \<Rightarrow> string option \<Rightarrow> string option \<Rightarrow> string option \<Rightarrow> string list option
     \<Rightarrow> string option \<Rightarrow> ((error + file_meta list) \<times> string list option \<times> event list) option"
and process_items ::
  "nat \<Rightarrow> service \<Rightarrow> string option \<Rightarrow> string list option \<Rightarrow> string option
     \<Rightarrow> drive_file list \<Rightarrow> file_meta list
     \<Rightarrow> ((error + file_meta list) \<times> string list option \<times> event list) option" where
  "get_fileids_meta_try 0 svc drive_id folder_id file_id mime_types query_string = None"
| "get_fileids_meta_try (Suc n) svc drive_id folder_id file_id mime_types query_string =
     (if truthy_str folder_id
      then (let mime_types' = keep_recursiveness mime_types;
                query = build_query (case folder_id of Some f \<Rightarrow> f | None \<Rightarrow> [])
                          mime_types' query_string in
            case fetch_pages (Suc n) svc drive_id query [] of
              None \<Rightarrow> None
            | Some (Inl e, evs) \<Rightarrow> Some (Inl e, mime_types', evs)
            | Some (Inr items, evs) \<Rightarrow>
                after_events evs (process_items n svc drive_id mime_types' query_string items []))
      else (case file_id of
              None \<Rightarrow> Some (Inl (TypeError ''Missing required parameter fileId''), mime_types, [])
            | Some fid \<Rightarrow>
                (let req = \<lparr>gr_fileId = fid, gr_supportsAllDrives = True,
                             gr_fields = Some ''*''\<rparr> in
                 case files_get svc req of
                   Inl e \<Rightarrow> Some (Inl e, mime_types, [Call (DriveGet req)])
                 | Inr file \<Rightarrow>
                     (case file_meta_of file of
                        Inl e \<Rightarrow> Some (Inl e, mime_types, [Call (DriveGet req)])
                      | Inr m \<Rightarrow> Some (Inr [m], mime_types, [Call (DriveGet req)])))))"
| "process_items n svc drive_id mime_types query_string [] fileids_meta =
     Some (Inr fileids_meta, mime_types, [])"
| "process_items n svc drive_id mime_types query_string (item # items) fileids_meta =
     (if f_mimeType item = folder_mime_type
      then (case get_fileids_meta_try n svc (if truthy_str drive_id then drive_id else None)
                   (Some (f_id item)) None mime_types query_string of
              None \<Rightarrow> None
            | Some r \<Rightarrow>
                (case catch_enumeration r of
                   (None, mime_types', evs) \<Rightarrow>
                     Some (Inl (TypeError ''NoneType object is not iterable''), mime_types', evs)
                 | (Some sub, mime_types', evs) \<Rightarrow>
                     after_events evs
                       (process_items n svc drive_id mime_types' query_string items
                          (fileids_meta @ sub))))
      else (case file_meta_of item of
              Inl e \<Rightarrow> Some (Inl e, mime_types, [])
            | Inr m \<Rightarrow>
                process_items n svc drive_id mime_types query_string items (fileids_meta @ [m])))"

definition get_fileids_meta ::
  "nat \<Rightarrow> service \<Rightarrow> string option \<Rightarrow> string option \<Rightarrow> string option \<Rightarrow> string list option
     \<Rightarrow> string option \<Rightarrow> (file_meta list option \<times> string list option \<times> event list) option" where
  "get_fileids_meta n svc drive_id folder_id file_id mime_types query_string =
     map_option catch_enumeration
       (get_fileids_meta_try n svc drive_id folder_id file_id mime_types query_string)"

section \<open>File materialization\<close>

text \<open>
  \<^verbatim>\<open>while not done: status, done = downloader.next_chunk()\<close>. The downloader appends each
  chunk to its buffer; \<open>k\<close> counts the chunks already received.
\<close>

fun download_chunks ::
  "nat \<Rightarrow> service \<Rightarrow> media_request \<Rightarrow> nat \<Rightarrow> string \<Rightarrow> ((error + string) \<times> event list) option" where
  "download_chunks 0 svc request k file_data = None"
| "download_chunks (Suc n) svc request k file_data =
     (case next_chunk svc request k of
        Inl e \<Rightarrow> Some (Inl e, [Call (DriveNextChunk request k)])
      | Inr (bytes, done) \<Rightarrow>
          if done then Some (Inr (file_data @ bytes), [Call (DriveNextChunk request k)])
          else map_option (\<lambda>(r, evs). (r, Call (DriveNextChunk request k) # evs))
                 (download_chunks n svc request (Suc k) (file_data @ bytes)))"

text \<open>The branch on the MIME type: the name to write and the request to download from.\<close>

definition download_target ::
  "reader \<Rightarrow> drive_file \<Rightarrow> string \<Rightarrow> string \<Rightarrow> string \<times> media_request" where
  "download_target rd file fileid filename =
     (case map_of (priv_mimetypes rd) (f_mimeType file) of
        Some rule \<Rightarrow> (filename @ extension rule, ExportMedia fileid (mimetype rule))
      | None \<Rightarrow> (filename, GetMedia fileid))"

definition download_get_request :: "string \<Rightarrow> get_request" where
  "download_get_request fileid =
     \<lparr>gr_fileId = fileid, gr_supportsAllDrives = True, gr_fields = None\<rparr>"

definition download_file_try ::
  "nat \<Rightarrow> reader \<Rightarrow> service \<Rightarrow> filesystem \<Rightarrow> string \<Rightarrow> string
     \<Rightarrow> ((error + string) \<times> filesystem \<times> event list) option" where
  "download_file_try n rd svc fs fileid filename =
     (let req = download_get_request fileid in
      case files_get svc req of
        Inl e \<Rightarrow> Some (Inl e, fs, [Call (DriveGet req)])
      | Inr file \<Rightarrow>
          (let (new_file_name, request) = download_target rd file fileid filename in
           case download_chunks n svc request 0 [] of
             None \<Rightarrow> None
           | Some (Inl e, evs) \<Rightarrow> Some (Inl e, fs, Call (DriveGet req) # evs)
           | Some (Inr file_data, evs) \<Rightarrow>
               (case open_write fs new_file_name file_data of
                  Inl e \<Rightarrow> Some (Inl e, fs, Call (DriveGet req) # evs)
                | Inr fs' \<Rightarrow> Some (Inr new_file_name, fs', Call (DriveGet req) # evs))))"

definition download_failed :: string where
  "download_failed = ''An error occurred while downloading file''"

fun catch_download ::
  "(error + string) \<times> filesystem \<times> event list \<Rightarrow> string option \<times> filesystem \<times> event list" where
  "catch_download (Inl e, fs, evs) = (None, fs, evs @ [Log (LogError download_failed e)])"
| "catch_download (Inr name, fs, evs) = (Some name, fs, evs)"

definition download_file ::
  "nat \<Rightarrow> reader \<Rightarrow> service \<Rightarrow> filesystem \<Rightarrow> string \<Rightarrow> string
     \<Rightarrow> (string option \<times> filesystem \<times> event list) option" where
  "download_file n rd svc fs fileid filename =
     map_option catch_download (download_file_try n rd svc fs fileid filename)"

section \<open>Document assembly\<close>

record document =
  doc_id :: string
  doc_text :: string
  doc_metadata :: "(string \<times> string) list"

text \<open>
  What the reader takes from its host: the name \<^verbatim>\<open>tempfile.TemporaryDirectory()\<close> creates,
  the text extraction of one staged file (pairs of a fresh identifier and a text), and the
  client built from a credential.
\<close>

record host =
  mkdtemp :: "filesystem \<Rightarrow> error + string"
  extract_text :: "string \<Rightarrow> string \<Rightarrow> error + (string \<times> string) list"
  build :: "creds option \<Rightarrow> service"

definition metadata_of :: "file_meta \<Rightarrow> (string \<times> string) list" where
  "metadata_of fm =
     [(''file id'', fm_id fm),
      (''author'', fm_author fm),
      (''file name'', fm_name fm),
      (''mime type'', fm_mimeType fm),
      (''created at'', fm_createdTime fm),
      (''modified at'', fm_modifiedTime fm)]"

text \<open>The callback \<^verbatim>\<open>get_metadata\<close>: a dictionary lookup that raises on a missing key.\<close>

definition get_metadata ::
  "(string option \<times> (string \<times> string) list) list \<Rightarrow> string \<Rightarrow> error + (string \<times> string) list" where
  "get_metadata metadata filename =
     (case map_of metadata (Some filename) of
        None \<Rightarrow> Inl (KeyError filename)
      | Some md \<Rightarrow> Inr md)"

text \<open>
  Modelled from the spec: the directory-based extraction layer (\<^verbatim>\<open>SimpleDirectoryReader\<close>),
  which the source file imports and does not define. The spec has it receive
  "a directory path plus a path -> metadata lookup callback" and give back
  "a list of documents each carrying a content field, an identifier, and a metadata
  block": every file of the directory is looked up through the callback and extracted,
  and each document of the file carries the block the callback returned for its path.
\<close>

fun load_files ::
  "(string \<Rightarrow> string \<Rightarrow> error + (string \<times> string) list) \<Rightarrow> (string \<Rightarrow> error + (string \<times> string) list)
     \<Rightarrow> (string \<times> string) list \<Rightarrow> error + document list" where
  "load_files extr file_metadata [] = Inr []"
| "load_files extr file_metadata ((path, content) # files) =
     (case file_metadata path of
        Inl e \<Rightarrow> Inl e
      | Inr md \<Rightarrow>
          (case extr path content of
             Inl e \<Rightarrow> Inl e
           | Inr parts \<Rightarrow>
               (case load_files extr file_metadata files of
                  Inl e \<Rightarrow> Inl e
                | Inr docs \<Rightarrow>
                    Inr (map (\<lambda>(i, t). \<lparr>doc_id = i, doc_text = t, doc_metadata = md\<rparr>) parts
                         @ docs))))"

text \<open>
  Modelled from the spec: the reader over a directory, "invoked over the scratch directory":
  the files that are directly in the directory, each loaded as above.
\<close>

definition simple_directory_reader ::
  "(string \<Rightarrow> string \<Rightarrow> error + (string \<times> string) list) \<Rightarrow> filesystem \<Rightarrow> string
     \<Rightarrow> (string \<Rightarrow> error + (string \<times> string) list) \<Rightarrow> error + document list" where
  "simple_directory_reader extr fs input_dir file_metadata =
     load_files extr file_metadata (filter (\<lambda>(p, _). dirname p = input_dir) (fs_files fs))"

text \<open>\<^verbatim>\<open>doc.id_ = doc.metadata.get("file id", doc.id_)\<close>\<close>

definition set_id :: "document \<Rightarrow> document" where
  "set_id doc =
     doc\<lparr>doc_id := (case map_of (doc_metadata doc) ''file id'' of
                      Some v \<Rightarrow> v
                    | None \<Rightarrow> doc_id doc)\<rparr>"

text \<open>
  The loop that downloads every file under the scratch directory and fills the
  \<^verbatim>\<open>metadata\<close> dictionary, keyed by what \<^verbatim>\<open>_download_file\<close> returned (possibly \<^verbatim>\<open>None\<close>).
\<close>

fun stage_files ::
  "nat \<Rightarrow> reader \<Rightarrow> service \<Rightarrow> string \<Rightarrow> file_meta list
     \<Rightarrow> (string option \<times> (string \<times> string) list) list \<Rightarrow> filesystem
     \<Rightarrow> ((string option \<times> (string \<times> string) list) list \<times> filesystem \<times> event list) option" where
  "stage_files n rd svc temp_dir [] metadata fs = Some (metadata, fs, [])"
| "stage_files n rd svc temp_dir (fileid_meta # rest) metadata fs =
     (let fileid = fm_id fileid_meta;
          filepath = path_join temp_dir fileid in
      case download_file n rd svc fs fileid filepath of
        None \<Rightarrow> None
      | Some (final_filepath, fs', evs) \<Rightarrow>
          after_events evs
            (stage_files n rd svc temp_dir rest
               (AList.update final_filepath (metadata_of fileid_meta) metadata) fs'))"

text \<open>The block under \<^verbatim>\<open>with tempfile.TemporaryDirectory() as temp_dir\<close>.\<close>

definition in_temp_dir ::
  "nat \<Rightarrow> host \<Rightarrow> reader \<Rightarrow> service \<Rightarrow> string \<Rightarrow> filesystem \<Rightarrow> file_meta list option
     \<Rightarrow> ((error + document list) \<times> filesystem \<times> event list) option" where
  "in_temp_dir n h rd svc temp_dir fs fileids_meta =
     (case fileids_meta of
        None \<Rightarrow> Some (Inl (TypeError ''NoneType object is not iterable''), fs, [])
      | Some metas \<Rightarrow>
          (case stage_files n rd svc temp_dir metas [] fs of
             None \<Rightarrow> None
           | Some (metadata, fs', evs) \<Rightarrow>
               (case simple_directory_reader (extract_text h) fs' temp_dir (get_metadata metadata) of
                  Inl e \<Rightarrow> Some (Inl e, fs', evs)
                | Inr documents \<Rightarrow> Some (Inr (map set_id documents), fs', evs))))"

text \<open>
  The \<^verbatim>\<open>try\<close> of \<^verbatim>\<open>_load_data_fileids_meta\<close>: the context manager creates the directory,
  and removes it with its contents when the block is left, normally or by an exception.
\<close>

definition load_data_fileids_meta_try ::
  "nat \<Rightarrow> host \<Rightarrow> reader \<Rightarrow> service \<Rightarrow> filesystem \<Rightarrow> file_meta list option
     \<Rightarrow> ((error + document list) \<times> filesystem \<times> event list) option" where
  "load_data_fileids_meta_try n h rd svc fs fileids_meta =
     (case mkdtemp h fs of
        Inl e \<Rightarrow> Some (Inl e, fs, [])
      | Inr temp_dir \<Rightarrow>
          (case in_temp_dir n h rd svc temp_dir
                  (fs\<lparr>fs_dirs := insert temp_dir (fs_dirs fs)\<rparr>) fileids_meta of
             None \<Rightarrow> None
           | Some (r, fs', evs) \<Rightarrow> Some (r, rmtree temp_dir fs', evs)))"

definition assembly_failed :: string where
  "assembly_failed = ''An error occurred while loading data from fileids meta''"

fun catch_assembly ::
  "(error + document list) \<times> filesystem \<times> event list
     \<Rightarrow> document list option \<times> filesystem \<times> event list" where
  "catch_assembly (Inl e, fs, evs) = (None, fs, evs @ [Log (LogError assembly_failed e)])"
| "catch_assembly (Inr docs, fs, evs) = (Some docs, fs, evs)"

definition load_data_fileids_meta ::
  "nat \<Rightarrow> host \<Rightarrow> reader \<Rightarrow> service \<Rightarrow> filesystem \<Rightarrow> file_meta list option
     \<Rightarrow> (document list option \<times> filesystem \<times> event list) option" where
  "load_data_fileids_meta n h rd svc fs fileids_meta =
     map_option catch_assembly (load_data_fileids_meta_try n h rd svc fs fileids_meta)"

section \<open>Top-level orchestration\<close>

text \<open>The loop of \<^verbatim>\<open>_load_from_file_ids\<close>: one single-file enumeration per identifier.\<close>

fun collect_file_ids ::
  "nat \<Rightarrow> service \<Rightarrow> string option \<Rightarrow> string list option \<Rightarrow> string option \<Rightarrow> string list
     \<Rightarrow> file_meta list \<Rightarrow> ((error + file_meta list) \<times> string list option \<times> event list) option" where
  "collect_file_ids n svc drive_id mime_types query_string [] fileids_meta =
     Some (Inr fileids_meta, mime_types, [])"
| "collect_file_ids n svc drive_id mime_types query_string (file_id # file_ids) fileids_meta =
     (case get_fileids_meta n svc drive_id None (Some file_id) mime_types query_string of
        None \<Rightarrow> None
      | Some (None, mime_types', evs) \<Rightarrow>
          Some (Inl (TypeError ''NoneType object is not iterable''), mime_types', evs)
      | Some (Some sub, mime_types', evs) \<Rightarrow>
          after_events evs
            (collect_file_ids n svc drive_id mime_types' query_string file_ids
               (fileids_meta @ sub)))"

definition load_from_file_ids ::
  "nat \<Rightarrow> host \<Rightarrow> reader \<Rightarrow> filesystem \<Rightarrow> string option \<Rightarrow> string list \<Rightarrow> string list option
     \<Rightarrow> string option
     \<Rightarrow> (document list option \<times> string list option \<times> filesystem \<times> event list) option" where
  "load_from_file_ids n h rd fs drive_id file_ids mime_types query_string =
     (let svc = build h (priv_creds rd) in
      case collect_file_ids n svc drive_id mime_types query_string file_ids [] of
        None \<Rightarrow> None
      | Some (Inl e, mime_types', evs) \<Rightarrow>
          Some (None, mime_types', fs,
                evs @ [Log (LogError ''An error occurred while loading with fileid'' e)])
      | Some (Inr fileids_meta, mime_types', evs) \<Rightarrow>
          (case load_data_fileids_meta n h rd svc fs (Some fileids_meta) of
             None \<Rightarrow> None
           | Some (docs, fs', evs') \<Rightarrow> Some (docs, mime_types', fs', evs @ evs')))"

text \<open>
  \<^verbatim>\<open>_load_from_folder\<close>. Both calls in its \<^verbatim>\<open>try\<close> catch their own exceptions, so its
  \<^verbatim>\<open>except\<close> has nothing left to catch.
\<close>

definition load_from_folder ::
  "nat \<Rightarrow> host \<Rightarrow> reader \<Rightarrow> filesystem \<Rightarrow> string option \<Rightarrow> string \<Rightarrow> string list option
     \<Rightarrow> string option
     \<Rightarrow> (document list option \<times> string list option \<times> filesystem \<times> event list) option" where
  "load_from_folder n h rd fs drive_id folder_id mime_types query_string =
     (let svc = build h (priv_creds rd) in
      case get_fileids_meta n svc drive_id (Some folder_id) None mime_types query_string of
        None \<Rightarrow> None
      | Some (fileids_meta, mime_types', evs) \<Rightarrow>
          (case load_data_fileids_meta n h rd svc fs fileids_meta of
             None \<Rightarrow> None
           | Some (docs, fs', evs') \<Rightarrow> Some (docs, mime_types', fs', evs @ evs')))"

definition selector_warning :: string where
  "selector_warning =
     ''Either '' @ sq @ ''folder_id'' @ sq @ '' or '' @ sq @ ''file_ids'' @ sq
       @ '' must be provided.''"

fun truthy_list :: "'a list option \<Rightarrow> bool" where
  "truthy_list None = False"
| "truthy_list (Some xs) = (xs \<noteq> [])"

text \<open>
  \<^verbatim>\<open>load_data\<close>. The credential is resolved first, outside any \<^verbatim>\<open>try\<close>: an exception there
  leaves the method. The result carries the reader (its \<^verbatim>\<open>_creds\<close> is assigned), the
  caller's \<^verbatim>\<open>mime_types\<close> list, the file system and the events.
\<close>

definition load_data ::
  "nat \<Rightarrow> host \<Rightarrow> auth_lib \<Rightarrow> reader \<Rightarrow> filesystem \<Rightarrow> string option \<Rightarrow> string option
     \<Rightarrow> string list option \<Rightarrow> string list option \<Rightarrow> string option
     \<Rightarrow> ((error + document list option) \<times> reader \<times> string list option \<times> filesystem
          \<times> event list) option" where
  "load_data n h lib rd fs drive_id folder_id file_ids mime_types query_string =
     (case get_credentials lib rd fs of
        (Inl e, fs1, evs) \<Rightarrow> Some (Inl e, rd, mime_types, fs1, evs)
      | (Inr c, fs1, evs) \<Rightarrow>
          (let rd' = rd\<lparr>priv_creds := Some c\<rparr> in
           if truthy_str folder_id
           then map_option (\<lambda>(docs, mime_types', fs', evs'). (Inr docs, rd', mime_types', fs', evs @ evs'))
                  (load_from_folder n h rd' fs1 drive_id
                     (case folder_id of Some f \<Rightarrow> f | None \<Rightarrow> []) mime_types query_string)
           else if truthy_list file_ids
           then map_option (\<lambda>(docs, mime_types', fs', evs'). (Inr docs, rd', mime_types', fs', evs @ evs'))
                  (load_from_file_ids n h rd' fs1 drive_id
                     (case file_ids of Some ids \<Rightarrow> ids | None \<Rightarrow> []) mime_types query_string)
           else Some (Inr (Some []), rd', mime_types, fs1, evs @ [Log (LogWarning selector_warning)])))"

section \<open>Concrete environments\<close>

text \<open>
  A small authentication library, an empty file system and the reader that \<open>init\<close> builds
  from a client configuration passed directly, whatever \<^verbatim>\<open>is_cloud\<close> is passed. They are
  the inputs at which the theorems below are instantiated.
\<close>

definition example_lib :: auth_lib where
  "example_lib =
     \<lparr>from_authorized_user_info = (\<lambda>info scopes.
          Inr \<lparr>token = map_of info ''token'',
               expired = (map_of info ''expired'' = Some ''yes''),
               refresh_token = map_of info ''refresh_token''\<rparr>),
      from_service_account_info = (\<lambda>key scopes. Inr \<lparr>sa_info = key, sa_scopes = scopes\<rparr>),
      refresh = (\<lambda>c. Inr (c\<lparr>token := Some ''refreshed'', expired := False\<rparr>)),
      from_client_config = (\<lambda>cfg scopes.
          case cfg of None \<Rightarrow> Inl (ValueError ''client config'') | Some c \<Rightarrow> Inr (c, scopes)),
      run_local_server = (\<lambda>fl.
          Inr \<lparr>token = Some ''granted'', expired = False, refresh_token = Some ''r1''\<rparr>),
      to_json = (\<lambda>c. case token c of None \<Rightarrow> ''{}'' | Some t \<Rightarrow> t)\<rparr>"

definition empty_fs :: filesystem where
  "empty_fs = \<lparr>fs_dirs = {}, fs_files = []\<rparr>"

definition example_reader :: "bool option \<Rightarrow> config_dict option \<Rightarrow> config_dict option \<Rightarrow> reader" where
  "example_reader is_cloud info key =
     \<lparr>client_config = Some [(''installed'', ''app'')],
      authorized_user_info = info,
      service_account_key = key,
      token_path = ''token.json'',
      priv_is_cloud = PyBool False,
      priv_creds = None,
      priv_mimetypes = mimetypes_table\<rparr>"

definition saved_valid :: config_dict where
  "saved_valid = [(''token'', ''t0'')]"

definition saved_expired :: config_dict where
  "saved_expired = [(''token'', ''t0''), (''expired'', ''yes''), (''refresh_token'', ''r0'')]"

text \<open>
  A provider that returns its items in pages: the request without a token gets page 0
  and the token of page \<open>k\<close> gets page \<open>k\<close>; every page but the last carries the token of
  the next one.
\<close>

definition page_token :: "nat \<Rightarrow> string option" where
  "page_token k = (if k = 0 then None else Some (replicate k (CHR ''p'')))"

definition paged_listing :: "drive_file list list \<Rightarrow> list_request \<Rightarrow> error + list_response" where
  "paged_listing pages req =
     (let k = (case lr_pageToken req of None \<Rightarrow> 0 | Some t \<Rightarrow> length t)
      in Inr \<lparr>resp_files = (if k < length pages then Some (pages ! k) else None),
               resp_nextPageToken = (if Suc k < length pages then page_token (Suc k) else None)\<rparr>)"

definition plain_file :: "string \<Rightarrow> string \<Rightarrow> drive_file" where
  "plain_file i mt =
     \<lparr>f_id = i, f_name = i @ ''.bin'', f_mimeType = mt, f_createdTime = ''2024-01-01'',
      f_modifiedTime = ''2024-01-02'', f_owners = Some [''Ann''], f_driveId = None\<rparr>"

definition pdf :: string where
  "pdf = ''application/pdf''"

definition two_page_service :: service where
  "two_page_service =
     \<lparr>files_list = paged_listing [[plain_file ''A'' pdf], [plain_file ''B'' pdf]],
      files_get = (\<lambda>req. Inl (HttpError ''404'')),
      next_chunk = (\<lambda>req k. Inl (HttpError ''404''))\<rparr>"

text \<open>
  A drive with a folder \<open>F\<close> holding a PDF \<open>A\<close>, a Word file \<open>B\<close> and a subfolder \<open>S\<close>
  that holds a PDF \<open>C\<close>; a native document \<open>G\<close> and a text file \<open>T\<close> outside. Its listing
  answers the queries for \<open>F\<close> and \<open>S\<close>, with the PDF filter and without a filter.
\<close>

definition docx :: string where
  "docx = ''application/vnd.openxmlformats-officedocument.wordprocessingml.document''"

definition example_files :: "(string \<times> drive_file) list" where
  "example_files =
     [(''A'', plain_file ''A'' pdf),
      (''B'', plain_file ''B'' docx),
      (''S'', plain_file ''S'' folder_mime_type),
      (''C'', plain_file ''C'' pdf),
      (''G'', plain_file ''G'' ''application/vnd.google-apps.document''),
      (''T'', plain_file ''T'' ''text/plain'')]"

definition one_page :: "drive_file list \<Rightarrow> error + list_response" where
  "one_page items = Inr \<lparr>resp_files = Some items, resp_nextPageToken = None\<rparr>"

definition example_service :: service where
  "example_service =
     \<lparr>files_list = (\<lambda>req.
        if lr_q req = build_query ''F'' (Some [pdf, folder_mime_type]) None
        then one_page [plain_file ''A'' pdf, plain_file ''S'' folder_mime_type]
        else if lr_q req = build_query ''S'' (Some [pdf, folder_mime_type]) None
        then one_page [plain_file ''C'' pdf]
        else if lr_q req = build_query ''F'' None None
        then one_page [plain_file ''A'' pdf, plain_file ''B'' docx,
                       plain_file ''S'' folder_mime_type]
        else if lr_q req = build_query ''S'' None None
        then one_page [plain_file ''C'' pdf]
        else Inl (HttpError ''404'')),
      files_get = (\<lambda>req.
        case map_of example_files (gr_fileId req) of
          None \<Rightarrow> Inl (HttpError ''404'')
        | Some file \<Rightarrow> Inr file),
      next_chunk = (\<lambda>request k.
        case request of
          GetMedia i \<Rightarrow> if k = 0 then Inr (''data of '', False) else Inr (i, True)
        | ExportMedia i mt \<Rightarrow> Inr (''export of '' @ i, True))\<rparr>"

text \<open>
  Three variants of it: a provider that ignores the query of a listing and answers every
  listing with the Word file \<open>B\<close>, one whose downloads break off after the first chunk, and
  one that lists the folder \<open>F\<close> and fails on every other listing, so on that of the
  subfolder \<open>S\<close>.
\<close>

definition unfiltered_service :: service where
  "unfiltered_service = example_service\<lparr>files_list := (\<lambda>req. one_page [plain_file ''B'' docx])\<rparr>"

definition interrupted_service :: service where
  "interrupted_service =
     example_service\<lparr>next_chunk := (\<lambda>request k.
        if k = 0 then Inr (''data of '', False) else Inl (HttpError ''connection reset''))\<rparr>"

definition broken_subfolder_service :: service where
  "broken_subfolder_service =
     example_service\<lparr>files_list := (\<lambda>req.
        if lr_q req = build_query ''F'' None None
        then one_page [plain_file ''A'' pdf, plain_file ''S'' folder_mime_type]
        else Inl (HttpError ''500''))\<rparr>"

definition failing_service :: service where
  "failing_service =
     \<lparr>files_list = (\<lambda>req. Inl (HttpError ''503'')),
      files_get = (\<lambda>req. Inl (HttpError ''503'')),
      next_chunk = (\<lambda>request k. Inl (HttpError ''503''))\<rparr>"

definition example_host :: host where
  "example_host =
     \<lparr>mkdtemp = (\<lambda>fs. Inr ''/tmp/scratch''),
      extract_text = (\<lambda>path content. Inr [(''fresh-id'', content)]),
      build = (\<lambda>c. example_service)\<rparr>"

definition failing_host :: host where
  "failing_host =
     \<lparr>mkdtemp = (\<lambda>fs. Inr ''/tmp/scratch''),
      extract_text = (\<lambda>path content. Inl (ExtractionError ''unreadable'')),
      build = (\<lambda>c. example_service)\<rparr>"

definition tmp_fs :: filesystem where
  "tmp_fs = \<lparr>fs_dirs = {''/tmp''}, fs_files = []\<rparr>"

definition denied_lib :: auth_lib where
  "denied_lib = example_lib\<lparr>run_local_server := (\<lambda>fl. Inl (AuthError ''access_denied''))\<rparr>"

definition meta_of_file :: "string \<Rightarrow> string \<Rightarrow> file_meta" where
  "meta_of_file i mt =
     \<lparr>fm_id = i, fm_author = ''Ann'', fm_name = i @ ''.bin'', fm_mimeType = mt,
      fm_createdTime = ''2024-01-01'', fm_modifiedTime = ''2024-01-02''\<rparr>"

definition example_document :: "string \<Rightarrow> string \<Rightarrow> string \<Rightarrow> document" where
  "example_document i mt content =
     \<lparr>doc_id = i, doc_text = content, doc_metadata = metadata_of (meta_of_file i mt)\<rparr>"

section \<open>Derived notions\<close>

text \<open>
  A remote call has \<^emph>\<open>failed with\<close> an exception when that exception is the provider's answer
  to it. The calls of the credential resolution are not calls to the provider.
\<close>

fun call_failed :: "service \<Rightarrow> remote_call \<Rightarrow> error \<Rightarrow> bool" where
  "call_failed svc (DriveList req) e = (files_list svc req = Inl e)"
| "call_failed svc (DriveGet req) e = (files_get svc req = Inl e)"
| "call_failed svc (DriveNextChunk request k) e = (next_chunk svc request k = Inl e)"
| "call_failed svc TokenRefresh e = False"
| "call_failed svc ConsentFlow e = False"



section \<open>Credential resolution: properties\<close>

lemma init_example:
  "init (\<lambda>s. Inr []) empty_fs is_cloud ''credentials.json'' ''token.json''
     ''service_account_key.json'' (Some [(''installed'', ''app'')]) info key
   = Inr (example_reader is_cloud info key)"
  by (simp add: init_def init_private_attributes_def load_config_def empty_fs_def
        example_reader_def split: option.splits)

text \<open>
  Whatever \<^verbatim>\<open>is_cloud\<close> is passed, the attribute of the constructed reader is the default
  \<^verbatim>\<open>False\<close>, so the branch that saves the credential is taken whenever a credential has
  been obtained or refreshed.
\<close>

lemma init_is_cloud_default:
  "init json_load fs is_cloud cp tp sp cc aui sak = Inr rd \<Longrightarrow> priv_is_cloud rd = PyBool False"
  by (auto simp: init_def init_private_attributes_def split: sum.splits if_splits)

lemma login_saves:
  assumes "\<not> truthy (priv_is_cloud rd)"
    and "case creds of None \<Rightarrow> True | Some c0 \<Rightarrow> \<not> valid c0"
    and "refresh_or_consent lib rd creds = (Inr c, evs)"
    and "open_write fs (token_path rd) (to_json lib c) = Inr fs'"
  shows "login lib rd fs creds = (Inr (User c), fs', evs)"
  using assms by (cases creds) (simp_all add: login_def)

lemma get_credentials_after_init_saves:
  assumes "init json_load fs0 is_cloud cp tp sp cc aui sak = Inr rd"
    and "authorized_user_info rd = None" and "service_account_key rd = None"
    and "consent lib rd = (Inr c, evs)"
    and "open_write fs (token_path rd) (to_json lib c) = Inr fs'"
  shows "get_credentials lib rd fs = (Inr (User c), fs', evs)"
proof -
  have "\<not> truthy (priv_is_cloud rd)"
    using init_is_cloud_default[OF assms(1)] by simp
  moreover have "refresh_or_consent lib rd None = (Inr c, evs)"
    using assms(4) by (simp add: refresh_or_consent_def)
  ultimately have "login lib rd fs None = (Inr (User c), fs', evs)"
    using assms(5) by (intro login_saves) simp_all
  with assms(2,3) show ?thesis by (simp add: get_credentials_def)
qed

text \<open>
  C2. The credential is to be written to the token file unless the reader is in cloud
  mode; the code writes it in cloud mode as well. A reader constructed with
  \<^verbatim>\<open>is_cloud=True\<close> from a client configuration, with no saved user info and no
  service-account key, obtains a fresh user credential through the consent flow; the file
  system had no token file before and has the token file, holding the serialized
  credential, afterwards.
\<close>

theorem token_file_written_in_cloud_mode:
  "init (\<lambda>s. Inr []) empty_fs (Some True) ''credentials.json'' ''token.json''
     ''service_account_key.json'' (Some [(''installed'', ''app'')]) None None
     = Inr (example_reader (Some True) None None)
   \<and> get_credentials example_lib (example_reader (Some True) None None) empty_fs
     = (Inr (User \<lparr>token = Some ''granted'', expired = False, refresh_token = Some ''r1''\<rparr>),
        empty_fs\<lparr>fs_files := [(''token.json'', ''granted'')]\<rparr>, [Call ConsentFlow])
   \<and> \<not> is_file empty_fs ''token.json''
   \<and> is_file (empty_fs\<lparr>fs_files := [(''token.json'', ''granted'')]\<rparr>) ''token.json''"
proof (intro conjI)
  show "init (\<lambda>s. Inr []) empty_fs (Some True) ''credentials.json'' ''token.json''
     ''service_account_key.json'' (Some [(''installed'', ''app'')]) None None
     = Inr (example_reader (Some True) None None)"
    by (rule init_example)
  show "get_credentials example_lib (example_reader (Some True) None None) empty_fs
     = (Inr (User \<lparr>token = Some ''granted'', expired = False, refresh_token = Some ''r1''\<rparr>),
        empty_fs\<lparr>fs_files := [(''token.json'', ''granted'')]\<rparr>, [Call ConsentFlow])"
    by code_simp
  show "\<not> is_file empty_fs ''token.json''"
    by (simp add: is_file_def empty_fs_def)
  show "is_file (empty_fs\<lparr>fs_files := [(''token.json'', ''granted'')]\<rparr>) ''token.json''"
    by (simp add: is_file_def)
qed

text \<open>
  C8. The order of credential resolution in \<open>get_credentials\<close>:
  \<^enum> saved authorized-user info is present and the library builds a valid credential from
    it: that user credential is returned, with no remote interaction;
  \<^enum> no saved info, a service-account key is present: the result is the service credential
    the library builds from the key with the read-only scope, returned at once, with no
    consent flow and nothing written;
  \<^enum> neither is present: the consent flow runs from the client configuration, and a
    credential that is returned is the one the flow granted;
  \<^enum> the credential built from the saved info is expired and carries a refresh token: it
    is refreshed (the only remote interaction, so no consent flow), and a credential that is
    returned is the refreshed one.
\<close>

theorem credential_resolution_order:
  "(authorized_user_info rd = Some info \<and> from_authorized_user_info lib info SCOPES = Inr c
      \<and> valid c
      \<longrightarrow> get_credentials lib rd fs = (Inr (User c), fs, []))
   \<and> (authorized_user_info rd = None \<and> service_account_key rd = Some key
      \<longrightarrow> SCOPES = [''https://www.googleapis.com/auth/drive.readonly'']
          \<and> get_credentials lib rd fs
            = (case from_service_account_info lib key SCOPES of
                 Inl e \<Rightarrow> Inl e | Inr sc \<Rightarrow> Inr (ServiceAccount sc), fs, []))
   \<and> (authorized_user_info rd = None \<and> service_account_key rd = None
        \<and> from_client_config lib (client_config rd) SCOPES = Inr fl
      \<longrightarrow> snd (snd (get_credentials lib rd fs)) = [Call ConsentFlow]
          \<and> (\<forall>cr. fst (get_credentials lib rd fs) = Inr cr
                \<longrightarrow> (\<exists>c'. run_local_server lib fl = Inr c' \<and> cr = User c')))
   \<and> (authorized_user_info rd = Some info \<and> from_authorized_user_info lib info SCOPES = Inr c
        \<and> expired c \<and> truthy_str (refresh_token c)
      \<longrightarrow> snd (snd (get_credentials lib rd fs)) = [Call TokenRefresh]
          \<and> (\<forall>cr. fst (get_credentials lib rd fs) = Inr cr
                \<longrightarrow> (\<exists>c'. refresh lib c = Inr c' \<and> cr = User c')))"
  by (auto simp: get_credentials_def login_def refresh_or_consent_def consent_def valid_def
        SCOPES_def split: option.splits sum.splits prod.splits if_splits)

theorem credential_resolution_order_witness:
  "get_credentials example_lib (example_reader None (Some saved_valid) None) empty_fs
     = (Inr (User \<lparr>token = Some ''t0'', expired = False, refresh_token = None\<rparr>), empty_fs, [])
   \<and> get_credentials example_lib (example_reader None None (Some [(''type'', ''service_account'')]))
       empty_fs
     = (Inr (ServiceAccount
               \<lparr>sa_info = [(''type'', ''service_account'')],
                sa_scopes = [''https://www.googleapis.com/auth/drive.readonly'']\<rparr>),
        empty_fs, [])
   \<and> snd (snd (get_credentials example_lib (example_reader None None None) empty_fs))
     = [Call ConsentFlow]
   \<and> fst (get_credentials example_lib (example_reader None None None) empty_fs)
     = Inr (User \<lparr>token = Some ''granted'', expired = False, refresh_token = Some ''r1''\<rparr>)
   \<and> snd (snd (get_credentials example_lib (example_reader None (Some saved_expired) None) empty_fs))
     = [Call TokenRefresh]
   \<and> fst (get_credentials example_lib (example_reader None (Some saved_expired) None) empty_fs)
     = Inr (User \<lparr>token = Some ''refreshed'', expired = False, refresh_token = Some ''r0''\<rparr>)"
proof -
  let ?v = "\<lparr>token = Some ''t0'', expired = False, refresh_token = None\<rparr>"
  let ?x = "\<lparr>token = Some ''t0'', expired = True, refresh_token = Some ''r0''\<rparr>"
  have 1: "get_credentials example_lib (example_reader None (Some saved_valid) None) empty_fs
     = (Inr (User ?v), empty_fs, [])"
    using credential_resolution_order
      [where rd = "example_reader None (Some saved_valid) None" and info = saved_valid
         and lib = example_lib and c = ?v and fs = empty_fs]
    by (simp add: example_reader_def example_lib_def saved_valid_def valid_def)
  have 2: "get_credentials example_lib
             (example_reader None None (Some [(''type'', ''service_account'')])) empty_fs
     = (Inr (ServiceAccount
               \<lparr>sa_info = [(''type'', ''service_account'')],
                sa_scopes = [''https://www.googleapis.com/auth/drive.readonly'']\<rparr>),
        empty_fs, [])"
    using credential_resolution_order
      [where rd = "example_reader None None (Some [(''type'', ''service_account'')])"
         and key = "[(''type'', ''service_account'')]" and lib = example_lib and fs = empty_fs]
    by (simp add: example_reader_def example_lib_def)
  have 3: "snd (snd (get_credentials example_lib (example_reader None None None) empty_fs))
             = [Call ConsentFlow]
           \<and> (\<forall>cr. fst (get_credentials example_lib (example_reader None None None) empty_fs) = Inr cr
                \<longrightarrow> (\<exists>c'. run_local_server example_lib ([(''installed'', ''app'')], SCOPES) = Inr c'
                          \<and> cr = User c'))"
    using credential_resolution_order
      [where rd = "example_reader None None None" and lib = example_lib and fs = empty_fs
         and fl = "([(''installed'', ''app'')], SCOPES)"]
    by (simp add: example_reader_def example_lib_def)
  have r3: "fst (get_credentials example_lib (example_reader None None None) empty_fs)
     = Inr (User \<lparr>token = Some ''granted'', expired = False, refresh_token = Some ''r1''\<rparr>)"
    by code_simp
  have 4: "snd (snd (get_credentials example_lib (example_reader None (Some saved_expired) None)
                       empty_fs)) = [Call TokenRefresh]"
    using credential_resolution_order
      [where rd = "example_reader None (Some saved_expired) None" and info = saved_expired
         and lib = example_lib and c = ?x and fs = empty_fs]
    by (simp add: example_reader_def example_lib_def saved_expired_def)
  have r4: "fst (get_credentials example_lib (example_reader None (Some saved_expired) None) empty_fs)
     = Inr (User \<lparr>token = Some ''refreshed'', expired = False, refresh_token = Some ''r0''\<rparr>)"
    by code_simp
  from 1 2 3 r3 4 r4 show ?thesis by blast
qed

section \<open>Enumeration: pagination\<close>

lemma make_list_request_no_token: "lr_pageToken (make_list_request drive_id query) = None"
  by (simp add: make_list_request_def)

text \<open>
  A first page with a continuation token keeps the loop going for ever: the request is
  built anew in every iteration, always without a token, so the same page comes back.
\<close>

lemma fetch_pages_stuck:
  assumes "files_list svc (make_list_request drive_id query) = Inr results"
    and "resp_nextPageToken results \<noteq> None"
  shows "fetch_pages n svc drive_id query items = None"
  using assms by (induction n arbitrary: items) (auto simp: Let_def)

lemma fetch_pages_Some:
  assumes "fetch_pages n svc drive_id query items = Some (r, evs)"
  shows "evs = [Call (DriveList (make_list_request drive_id query))]
         \<and> (case files_list svc (make_list_request drive_id query) of
               Inl e \<Rightarrow> r = Inl e
             | Inr results \<Rightarrow> resp_nextPageToken results = None
                               \<and> r = Inr (items @ items_of results))"
proof (cases n)
  case 0
  with assms show ?thesis by simp
next
  case (Suc m)
  show ?thesis
  proof (cases "files_list svc (make_list_request drive_id query)")
    case (Inl e)
    with assms Suc show ?thesis by (simp add: Let_def)
  next
    case (Inr results)
    show ?thesis
    proof (cases "resp_nextPageToken results")
      case None
      with assms Suc Inr show ?thesis by (simp add: Let_def)
    next
      case (Some t)
      with Inr have "fetch_pages m svc drive_id query (items @ items_of results) = None"
        by (intro fetch_pages_stuck) auto
      with assms Suc Inr Some show ?thesis by (simp add: Let_def)
    qed
  qed
qed

lemma paged_first:
  "paged_listing pages (make_list_request drive_id query)
   = Inr \<lparr>resp_files = (if pages = [] then None else Some (hd pages)),
          resp_nextPageToken = (if 1 < length pages then Some ''p'' else None)\<rparr>"
  by (auto simp: paged_listing_def make_list_request_no_token page_token_def hd_conv_nth)

text \<open>
  C1. The enumeration is to return the concatenation of all pages; the code does so for a
  single page only. Against a provider that returns its items in two or more pages, the
  folder-mode enumeration does not return, whatever the fuel: it never gets past the
  first page.
\<close>

theorem pagination_never_advances:
  assumes "files_list svc = paged_listing pages" and "2 \<le> length pages"
    and "truthy_str folder_id"
  shows "get_fileids_meta n svc drive_id folder_id file_id mime_types query_string = None"
proof (cases n)
  case 0
  then show ?thesis by (simp add: get_fileids_meta_def)
next
  case (Suc m)
  let ?q = "build_query (case folder_id of Some f \<Rightarrow> f | None \<Rightarrow> [])
              (keep_recursiveness mime_types) query_string"
  let ?r = "\<lparr>resp_files = (if pages = [] then None else Some (hd pages)),
             resp_nextPageToken = (if 1 < length pages then Some ''p'' else None)\<rparr>"
  have r: "files_list svc (make_list_request drive_id ?q) = Inr ?r"
    using assms(1) by (simp only: paged_first)
  have "resp_nextPageToken ?r \<noteq> None"
    using assms(2) by simp
  with r have "fetch_pages (Suc m) svc drive_id ?q [] = None"
    by (rule fetch_pages_stuck)
  with Suc assms(3) show ?thesis
    by (simp add: get_fileids_meta_def Let_def)
qed

theorem pagination_never_advances_witness:
  "files_list two_page_service = paged_listing [[plain_file ''A'' pdf], [plain_file ''B'' pdf]]
   \<and> get_fileids_meta 100 two_page_service None (Some ''F'') None None None = None"
  using pagination_never_advances [of two_page_service
      "[[plain_file ''A'' pdf], [plain_file ''B'' pdf]]" "Some ''F''" 100 None None None None]
  by (simp add: two_page_service_def)

text \<open>With a single page the loop returns after one request, with the items of the page.\<close>

lemma fetch_pages_single:
  assumes "files_list svc (make_list_request drive_id query) = Inr results"
    and "resp_nextPageToken results = None"
  shows "fetch_pages (Suc n) svc drive_id query items
         = Some (Inr (items @ items_of results),
                 [Call (DriveList (make_list_request drive_id query))])"
  using assms by (simp add: Let_def)

section \<open>Enumeration: what a returned call has done\<close>

lemma after_events_Some:
  "after_events evs x = Some (r, m, e) \<longleftrightarrow> (\<exists>e2. x = Some (r, m, e2) \<and> e = evs @ e2)"
  by (cases x) (auto simp: after_events_def)

lemma keep_recursiveness_idem:
  "keep_recursiveness (keep_recursiveness ms) = keep_recursiveness ms"
  by (auto simp: keep_recursiveness_def split: option.splits)

lemma get_fileids_meta_0 [simp]: "get_fileids_meta 0 svc d f fi ms qs = None"
  by (simp add: get_fileids_meta_def)

text \<open>What a returned folder-mode call has done: one listing, then the loop over its items.\<close>

lemma get_fileids_meta_try_folder_cases:
  assumes "get_fileids_meta_try (Suc n) svc d (Some f) fi ms qs = Some (r, ms', evs)"
    and "f \<noteq> []"
  obtains
    (listing_failed) e where
      "files_list svc (make_list_request d (build_query f (keep_recursiveness ms) qs)) = Inl e"
      "r = Inl e" "ms' = keep_recursiveness ms"
      "evs = [Call (DriveList (make_list_request d (build_query f (keep_recursiveness ms) qs)))]"
  | (listed) results evs2 where
      "files_list svc (make_list_request d (build_query f (keep_recursiveness ms) qs)) = Inr results"
      "resp_nextPageToken results = None"
      "process_items n svc d (keep_recursiveness ms) qs (items_of results) [] = Some (r, ms', evs2)"
      "evs = Call (DriveList (make_list_request d (build_query f (keep_recursiveness ms) qs))) # evs2"
proof -
  let ?q = "build_query f (keep_recursiveness ms) qs"
  from assms obtain r1 e1 where fp: "fetch_pages (Suc n) svc d ?q [] = Some (r1, e1)"
    by (auto simp: Let_def split: option.splits)
  note fs = fetch_pages_Some[OF fp]
  show thesis
  proof (cases "files_list svc (make_list_request d ?q)")
    case (Inl e)
    with fs have "r1 = Inl e" by simp
    with assms fp fs Inl show thesis
      by (intro listing_failed[of e]) (auto simp: Let_def)
  next
    case (Inr results)
    with fs have r1: "r1 = Inr (items_of results)" and tok: "resp_nextPageToken results = None"
      by simp_all
    from assms fp r1 fs obtain evs2 where
      "process_items n svc d (keep_recursiveness ms) qs (items_of results) [] = Some (r, ms', evs2)"
      "evs = Call (DriveList (make_list_request d ?q)) # evs2"
      by (auto simp: Let_def after_events_Some)
    with Inr tok show thesis by (intro listed[of results evs2])
  qed
qed

text \<open>What one step of the loop over the items has done, when the loop has returned.\<close>

lemma process_items_Cons_cases:
  assumes "process_items n svc d ms qs (item # items) acc = Some (r, ms', evs)"
  obtains
    (plain) m where "f_mimeType item \<noteq> folder_mime_type" "file_meta_of item = Inr m"
      "process_items n svc d ms qs items (acc @ [m]) = Some (r, ms', evs)"
  | (plain_failed) e where "f_mimeType item \<noteq> folder_mime_type" "file_meta_of item = Inl e"
      "r = Inl e" "ms' = ms" "evs = []"
  | (folder_failed) "f_mimeType item = folder_mime_type"
      "get_fileids_meta n svc (if truthy_str d then d else None) (Some (f_id item)) None ms qs
         = Some (None, ms', evs)"
      "r = Inl (TypeError ''NoneType object is not iterable'')"
  | (folder) sub m1 e1 e2 where "f_mimeType item = folder_mime_type"
      "get_fileids_meta n svc (if truthy_str d then d else None) (Some (f_id item)) None ms qs
         = Some (Some sub, m1, e1)"
      "process_items n svc d m1 qs items (acc @ sub) = Some (r, ms', e2)"
      "evs = e1 @ e2"
proof (cases "f_mimeType item = folder_mime_type")
  case False
  show thesis
  proof (cases "file_meta_of item")
    case (Inl e)
    with assms False show thesis by (intro plain_failed[of e]) auto
  next
    case (Inr m)
    with assms False show thesis by (intro plain[of m]) auto
  qed
next
  case True
  from assms True obtain x where
    x: "get_fileids_meta_try n svc (if truthy_str d then d else None) (Some (f_id item)) None ms qs
          = Some x"
    by (auto split: option.splits)
  obtain r1 m1 e1 where c: "catch_enumeration x = (r1, m1, e1)"
    by (cases "catch_enumeration x") auto
  with x have g: "get_fileids_meta n svc (if truthy_str d then d else None) (Some (f_id item))
                    None ms qs = Some (r1, m1, e1)"
    by (simp add: get_fileids_meta_def)
  show thesis
  proof (cases r1)
    case None
    with assms True x c g show thesis by (intro folder_failed) auto
  next
    case (Some sub)
    with assms True x c obtain e2 where
      "process_items n svc d m1 qs items (acc @ sub) = Some (r, ms', e2)" "evs = e1 @ e2"
      by (auto simp: after_events_Some)
    with True g Some show thesis by (intro folder[of sub m1 e1 e2]) auto
  qed
qed


lemma catch_enumeration_mime: "fst (snd (catch_enumeration x)) = fst (snd x)"
  by (cases x rule: catch_enumeration.cases) simp_all


lemma get_fileids_meta_mime:
  assumes "get_fileids_meta n svc d f fi ms qs = Some (r, ms', evs)"
  obtains r0 evs0 where "get_fileids_meta_try n svc d f fi ms qs = Some (r0, ms', evs0)"
proof -
  from assms obtain x where x: "get_fileids_meta_try n svc d f fi ms qs = Some x"
    and c: "catch_enumeration x = (r, ms', evs)"
    by (auto simp: get_fileids_meta_def)
  from c have "fst (snd x) = ms'"
    using catch_enumeration_mime[of x] by simp
  with x that show thesis by (cases x) auto
qed

text \<open>The list object after a call: changed by a folder-mode call only, and only once.\<close>

lemma mime_types_after_items:
  assumes IH: "\<And>d f fi ms qs r ms' evs.
            get_fileids_meta_try n svc d f fi ms qs = Some (r, ms', evs)
              \<Longrightarrow> ms' = (if truthy_str f then keep_recursiveness ms else ms)"
    and "process_items n svc d ms qs items acc = Some (r, ms', evs)"
    and "keep_recursiveness ms = ms"
  shows "ms' = ms"
  using assms(2,3)
proof (induction items arbitrary: acc r ms' evs)
  case Nil
  then show ?case by simp
next
  case (Cons item items)
  have sub: "m1 = ms"
    if "get_fileids_meta n svc d1 (Some fid) None ms qs = Some (r1, m1, e1)" for d1 fid r1 m1 e1
  proof -
    from that obtain r0 e0 where
      "get_fileids_meta_try n svc d1 (Some fid) None ms qs = Some (r0, m1, e0)"
      by (rule get_fileids_meta_mime)
    from IH[OF this] Cons.prems(2) show ?thesis by (simp split: if_splits)
  qed
  from Cons.prems(1) show ?case
  proof (cases rule: process_items_Cons_cases)
    case (plain m)
    then show ?thesis using Cons.IH Cons.prems(2) by blast
  next
    case (plain_failed e)
    then show ?thesis by simp
  next
    case folder_failed
    then show ?thesis using sub by blast
  next
    case (folder sub' m1 e1 e2)
    from folder(2) have "m1 = ms" by (rule sub)
    with folder(3) Cons.IH Cons.prems(2) show ?thesis by blast
  qed
qed

lemma mime_types_after_try:
  "get_fileids_meta_try n svc d f fi ms qs = Some (r, ms', evs)
     \<Longrightarrow> ms' = (if truthy_str f then keep_recursiveness ms else ms)"
proof (induction n arbitrary: d f fi ms qs r ms' evs)
  case 0
  then show ?case by simp
next
  case (Suc n)
  show ?case
  proof (cases "truthy_str f")
    case False
    with Suc.prems show ?thesis
      by (auto simp: Let_def split: option.splits sum.splits)
  next
    case True
    then obtain fid where f: "f = Some fid" "fid \<noteq> []" by (cases f) auto
    from Suc.prems[unfolded f] f(2) show ?thesis
    proof (cases rule: get_fileids_meta_try_folder_cases)
      case (listing_failed e)
      then show ?thesis using True by simp
    next
      case (listed results evs2)
      from mime_types_after_items[OF Suc.IH listed(3) keep_recursiveness_idem] True
      show ?thesis by simp
    qed
  qed
qed

lemma mime_types_after:
  assumes "get_fileids_meta n svc d f fi ms qs = Some (r, ms', evs)"
  shows "ms' = (if truthy_str f then keep_recursiveness ms else ms)"
proof -
  from assms obtain r0 e0 where "get_fileids_meta_try n svc d f fi ms qs = Some (r0, ms', e0)"
    by (rule get_fileids_meta_mime)
  then show ?thesis by (rule mime_types_after_try)
qed

section \<open>Enumeration: the caller's filter list\<close>

lemma example_enumeration:
  "get_fileids_meta (Suc (Suc 0)) example_service None (Some ''F'') None (Some [pdf]) None
   = Some (Some [meta_of_file ''A'' pdf, meta_of_file ''C'' pdf],
           Some [pdf, folder_mime_type],
           [Call (DriveList (make_list_request None
                    (build_query ''F'' (Some [pdf, folder_mime_type]) None))),
            Call (DriveList (make_list_request None
                    (build_query ''S'' (Some [pdf, folder_mime_type]) None)))])"
  by code_simp

lemma load_data_folder_mime:
  assumes "load_data n h lib rd fs drive_id folder_id file_ids mime_types query_string
             = Some (Inr docs, rd', ms', fs', evs)"
    and "truthy_str folder_id"
  shows "ms' = keep_recursiveness mime_types"
proof -
  obtain f where f: "folder_id = Some f" "f \<noteq> []"
    using assms(2) by (cases folder_id) auto
  from assms obtain c fs1 e1 where gc: "get_credentials lib rd fs = (Inr c, fs1, e1)"
    by (auto simp: load_data_def split: prod.splits sum.splits)
  from assms gc obtain docs' fs2 e2 where
    lf: "load_from_folder n h (rd\<lparr>priv_creds := Some c\<rparr>) fs1 drive_id f mime_types query_string
           = Some (docs', ms', fs2, e2)"
    by (auto simp: load_data_def Let_def f)
  then obtain r e3 where
    "get_fileids_meta n (build h (Some c)) drive_id (Some f) None mime_types query_string
       = Some (r, ms', e3)"
    by (auto simp: load_from_folder_def Let_def split: option.splits prod.splits)
  from mime_types_after[OF this] f show ?thesis by simp
qed

text \<open>
  C10. A non-empty \<^verbatim>\<open>mime_types\<close> list without the folder MIME type, passed to a folder-mode
  enumeration, has the folder MIME type appended when the call has returned, whatever the
  call returns; the same holds for the list passed to \<^verbatim>\<open>load_data\<close> with a folder id,
  once \<^verbatim>\<open>load_data\<close> has returned.
\<close>

theorem caller_mime_types_mutated:
  assumes "truthy_str folder_id" and "ms \<noteq> []" and "folder_mime_type \<notin> set ms"
  shows "(get_fileids_meta n svc drive_id folder_id file_id (Some ms) query_string
            = Some (r, ms', evs)
          \<longrightarrow> ms' = Some (ms @ [''application/vnd.google-apps.folder'']))
       \<and> (load_data n h lib rd fs drive_id folder_id file_ids (Some ms) query_string
            = Some (Inr docs, rd', ms'', fs', evs')
          \<longrightarrow> ms'' = Some (ms @ [''application/vnd.google-apps.folder'']))"
proof -
  have k: "keep_recursiveness (Some ms) = Some (ms @ [''application/vnd.google-apps.folder''])"
    using assms(2,3) by (simp add: keep_recursiveness_def folder_mime_type_def)
  show ?thesis
    using mime_types_after[of n svc drive_id folder_id file_id "Some ms" query_string r ms' evs]
      load_data_folder_mime[of n h lib rd fs drive_id folder_id file_ids "Some ms" query_string
        docs rd' ms'' fs' evs']
      assms(1) k
    by auto
qed

theorem caller_mime_types_mutated_witness:
  "truthy_str (Some ''F'') \<and> [pdf] \<noteq> [] \<and> folder_mime_type \<notin> set [pdf]
   \<and> get_fileids_meta (Suc (Suc 0)) example_service None (Some ''F'') None (Some [pdf]) None
     = Some (Some [meta_of_file ''A'' pdf, meta_of_file ''C'' pdf],
           Some [''application/pdf'', ''application/vnd.google-apps.folder''],
           [Call (DriveList (make_list_request None
                    (build_query ''F'' (Some [pdf, folder_mime_type]) None))),
            Call (DriveList (make_list_request None
                    (build_query ''S'' (Some [pdf, folder_mime_type]) None)))])"
proof -
  have h: "truthy_str (Some ''F'')" "[pdf] \<noteq> []" "folder_mime_type \<notin> set [pdf]"
    by (simp_all add: pdf_def folder_mime_type_def)
  from caller_mime_types_mutated[OF h, of "Suc (Suc 0)" example_service None None None
      "Some [meta_of_file ''A'' pdf, meta_of_file ''C'' pdf]" "Some [pdf, folder_mime_type]"]
    example_enumeration h
  show ?thesis by (simp add: pdf_def folder_mime_type_def)
qed

section \<open>Enumeration: where the results come from\<close>






section \<open>Enumeration: the queries sent\<close>



section \<open>Enumeration: subfolders\<close>



lemma example_subfolder:
  "get_fileids_meta (Suc 0) example_service None (Some ''S'') None
     (Some [pdf, folder_mime_type]) None
   = Some (Some [meta_of_file ''C'' pdf], Some [pdf, folder_mime_type],
           [Call (DriveList (make_list_request None
                    (build_query ''S'' (Some [pdf, folder_mime_type]) None)))])"
  by code_simp



section \<open>Materialization\<close>

lemma download_chunks_events:
  "download_chunks n svc request k file_data = Some (r, evs)
     \<Longrightarrow> Call (DriveNextChunk request k) \<in> set evs
         \<and> (\<forall>request' j. Call (DriveNextChunk request' j) \<in> set evs \<longrightarrow> request' = request)
         \<and> (\<forall>c. Call c \<in> set evs \<longrightarrow> (\<exists>j. c = DriveNextChunk request j))
         \<and> (\<forall>l. Log l \<notin> set evs)"
proof (induction n arbitrary: k file_data r evs)
  case 0
  then show ?case by simp
next
  case (Suc n)
  show ?case
  proof (cases "next_chunk svc request k")
    case (Inl e)
    with Suc.prems show ?thesis by auto
  next
    case (Inr x)
    obtain bytes fin where x: "x = (bytes, fin)" by (cases x) auto
    show ?thesis
    proof (cases fin)
      case True
      with Suc.prems Inr x show ?thesis by auto
    next
      case False
      with Suc.prems Inr x obtain evs' where
        rest: "download_chunks n svc request (Suc k) (file_data @ bytes) = Some (r, evs')"
        and evs: "evs = Call (DriveNextChunk request k) # evs'"
        by auto
      from Suc.IH[OF rest] evs show ?thesis by auto
    qed
  qed
qed

lemma open_write_is_file: "open_write fs path data = Inr fs' \<Longrightarrow> is_file fs' path"
  by (auto simp: open_write_def is_file_def update_Some_unfold split: if_splits)

lemma download_file_try_got:
  assumes "files_get svc (download_get_request fileid) = Inr fl"
  shows "download_file_try n rd svc fs fileid filename =
     (case download_chunks n svc (snd (download_target rd fl fileid filename)) 0 [] of
        None \<Rightarrow> None
      | Some (Inl e, evs) \<Rightarrow> Some (Inl e, fs, Call (DriveGet (download_get_request fileid)) # evs)
      | Some (Inr file_data, evs) \<Rightarrow>
          (case open_write fs (fst (download_target rd fl fileid filename)) file_data of
             Inl e \<Rightarrow> Some (Inl e, fs, Call (DriveGet (download_get_request fileid)) # evs)
           | Inr fs' \<Rightarrow> Some (Inr (fst (download_target rd fl fileid filename)), fs',
                             Call (DriveGet (download_get_request fileid)) # evs)))"
  using assms by (simp add: download_file_try_def Let_def case_prod_beta)

lemma download_file_cases:
  assumes "download_file n rd svc fs fileid filename = Some (r, fs', evs)"
  obtains
    (get_failed) e where "files_get svc (download_get_request fileid) = Inl e"
      "r = None" "fs' = fs"
      "evs = [Call (DriveGet (download_get_request fileid)), Log (LogError download_failed e)]"
  | (chunk_failed) fl e evs1 where "files_get svc (download_get_request fileid) = Inr fl"
      "download_chunks n svc (snd (download_target rd fl fileid filename)) 0 []
         = Some (Inl e, evs1)"
      "r = None" "fs' = fs"
      "evs = Call (DriveGet (download_get_request fileid)) # evs1
               @ [Log (LogError download_failed e)]"
  | (write_failed) fl file_data e evs1 where
      "files_get svc (download_get_request fileid) = Inr fl"
      "download_chunks n svc (snd (download_target rd fl fileid filename)) 0 []
         = Some (Inr file_data, evs1)"
      "open_write fs (fst (download_target rd fl fileid filename)) file_data = Inl e"
      "r = None" "fs' = fs"
      "evs = Call (DriveGet (download_get_request fileid)) # evs1
               @ [Log (LogError download_failed e)]"
  | (written) fl file_data evs1 where
      "files_get svc (download_get_request fileid) = Inr fl"
      "download_chunks n svc (snd (download_target rd fl fileid filename)) 0 []
         = Some (Inr file_data, evs1)"
      "open_write fs (fst (download_target rd fl fileid filename)) file_data = Inr fs'"
      "r = Some (fst (download_target rd fl fileid filename))"
      "evs = Call (DriveGet (download_get_request fileid)) # evs1"
proof (cases "files_get svc (download_get_request fileid)")
  case (Inl e)
  with assms show thesis
    by (intro get_failed[of e]) (auto simp: download_file_def download_file_try_def)
next
  case (Inr fl)
  note unfold = download_file_try_got[OF Inr, of n rd fs filename]
  let ?request = "snd (download_target rd fl fileid filename)"
  let ?name = "fst (download_target rd fl fileid filename)"
  show thesis
  proof (cases "download_chunks n svc ?request 0 []")
    case None
    with assms unfold show thesis by (simp add: download_file_def)
  next
    case (Some c)
    obtain r1 evs1 where c: "c = (r1, evs1)" by (cases c) auto
    show thesis
    proof (cases r1)
      case (Inl e)
      with assms unfold Some c Inr show thesis
        by (intro chunk_failed[of fl e evs1]) (auto simp: download_file_def)
    next
      case r1: (Inr file_data)
      show thesis
      proof (cases "open_write fs ?name file_data")
        case (Inl e)
        with assms unfold Some c r1 Inr show thesis
          by (intro write_failed[of fl file_data evs1 e]) (auto simp: download_file_def)
      next
        case w: (Inr fs2)
        with assms unfold Some c r1 Inr show thesis
          by (intro written[of fl file_data evs1]) (auto simp: download_file_def)
      qed
    qed
  qed
qed

lemma download_target_native:
  assumes "priv_mimetypes rd = mimetypes_table"
  shows "download_target rd fl fileid filename =
     (if f_mimeType fl = ''application/vnd.google-apps.document''
      then (filename @ ''.docx'',
            ExportMedia fileid
              ''application/vnd.openxmlformats-officedocument.wordprocessingml.document'')
      else if f_mimeType fl = ''application/vnd.google-apps.spreadsheet''
      then (filename @ ''.xlsx'',
            ExportMedia fileid
              ''application/vnd.openxmlformats-officedocument.spreadsheetml.sheet'')
      else if f_mimeType fl = ''application/vnd.google-apps.presentation''
      then (filename @ ''.pptx'',
            ExportMedia fileid
              ''application/vnd.openxmlformats-officedocument.presentationml.presentation'')
      else (filename, GetMedia fileid))"
  using assms by (simp add: download_target_def mimetypes_table_def)

lemma example_download_native:
  "download_file (Suc 0) (example_reader None None None) example_service tmp_fs ''G'' ''/tmp/G''
   = Some (Some ''/tmp/G.docx'',
           tmp_fs\<lparr>fs_files := [(''/tmp/G.docx'', ''export of G'')]\<rparr>,
           [Call (DriveGet (download_get_request ''G'')),
            Call (DriveNextChunk
                   (ExportMedia ''G''
                      ''application/vnd.openxmlformats-officedocument.wordprocessingml.document'')
                   0)])"
  by code_simp

lemma example_download_raw:
  "download_file (Suc (Suc 0)) (example_reader None None None) example_service tmp_fs
     ''T'' ''/tmp/T''
   = Some (Some ''/tmp/T'',
           tmp_fs\<lparr>fs_files := [(''/tmp/T'', ''data of T'')]\<rparr>,
           [Call (DriveGet (download_get_request ''T'')),
            Call (DriveNextChunk (GetMedia ''T'') 0),
            Call (DriveNextChunk (GetMedia ''T'') 1)])"
  by code_simp

text \<open>
  C4. With the conversion table of \<open>init\<close> and the file's metadata fetched: a document,
  spreadsheet or presentation of the native types gets \<^verbatim>\<open>.docx\<close>, \<^verbatim>\<open>.xlsx\<close> or \<^verbatim>\<open>.pptx\<close>
  appended to the base path and an export request with the mapped MIME type; any other type
  keeps the base path and gets a raw media request. A call of \<open>download_file\<close> that has
  returned has downloaded from that request and from no other, starting with its first
  chunk; the path it returns, if any, is that name, and the file is then on disk.
\<close>

theorem export_mapping:
  assumes "priv_mimetypes rd = mimetypes_table"
    and "files_get svc (download_get_request fileid) = Inr fl"
  shows "(f_mimeType fl = ''application/vnd.google-apps.document'' \<longrightarrow>
            download_target rd fl fileid filename
            = (filename @ ''.docx'',
               ExportMedia fileid
                 ''application/vnd.openxmlformats-officedocument.wordprocessingml.document''))
       \<and> (f_mimeType fl = ''application/vnd.google-apps.spreadsheet'' \<longrightarrow>
            download_target rd fl fileid filename
            = (filename @ ''.xlsx'',
               ExportMedia fileid
                 ''application/vnd.openxmlformats-officedocument.spreadsheetml.sheet''))
       \<and> (f_mimeType fl = ''application/vnd.google-apps.presentation'' \<longrightarrow>
            download_target rd fl fileid filename
            = (filename @ ''.pptx'',
               ExportMedia fileid
                 ''application/vnd.openxmlformats-officedocument.presentationml.presentation''))
       \<and> (f_mimeType fl \<noteq> ''application/vnd.google-apps.document''
            \<and> f_mimeType fl \<noteq> ''application/vnd.google-apps.spreadsheet''
            \<and> f_mimeType fl \<noteq> ''application/vnd.google-apps.presentation'' \<longrightarrow>
            download_target rd fl fileid filename = (filename, GetMedia fileid))
       \<and> (\<forall>r fs' evs. download_file n rd svc fs fileid filename = Some (r, fs', evs) \<longrightarrow>
            Call (DriveNextChunk (snd (download_target rd fl fileid filename)) 0) \<in> set evs
            \<and> (\<forall>request k. Call (DriveNextChunk request k) \<in> set evs
                  \<longrightarrow> request = snd (download_target rd fl fileid filename))
            \<and> (\<forall>p. r = Some p
                  \<longrightarrow> p = fst (download_target rd fl fileid filename) \<and> is_file fs' p))"
proof -
  note t = download_target_native[OF assms(1), of fl fileid filename]
  have run: "Call (DriveNextChunk (snd (download_target rd fl fileid filename)) 0) \<in> set evs
            \<and> (\<forall>request k. Call (DriveNextChunk request k) \<in> set evs
                  \<longrightarrow> request = snd (download_target rd fl fileid filename))
            \<and> (\<forall>p. r = Some p
                  \<longrightarrow> p = fst (download_target rd fl fileid filename) \<and> is_file fs' p)"
    if "download_file n rd svc fs fileid filename = Some (r, fs', evs)" for r fs' evs
    using that
  proof (cases rule: download_file_cases)
    case (get_failed e)
    with assms(2) show ?thesis by simp
  next
    case (chunk_failed fl' e evs1)
    with assms(2) have "fl' = fl" by simp
    with download_chunks_events[OF chunk_failed(2)] chunk_failed(3,5) show ?thesis by auto
  next
    case (write_failed fl' file_data e evs1)
    with assms(2) have "fl' = fl" by simp
    with download_chunks_events[OF write_failed(2)] write_failed(4,6) show ?thesis by auto
  next
    case (written fl' file_data evs1)
    with assms(2) have "fl' = fl" by simp
    with download_chunks_events[OF written(2)] written(3,4,5) open_write_is_file[OF written(3)]
    show ?thesis by auto
  qed
  from t run show ?thesis by simp
qed

theorem export_mapping_witness:
  "download_file (Suc 0) (example_reader None None None) example_service tmp_fs ''G'' ''/tmp/G''
   = Some (Some ''/tmp/G.docx'',
           tmp_fs\<lparr>fs_files := [(''/tmp/G.docx'', ''export of G'')]\<rparr>,
           [Call (DriveGet (download_get_request ''G'')),
            Call (DriveNextChunk
                   (ExportMedia ''G''
                      ''application/vnd.openxmlformats-officedocument.wordprocessingml.document'')
                   0)])
   \<and> download_target (example_reader None None None)
       (plain_file ''G'' ''application/vnd.google-apps.document'') ''G'' ''/tmp/G''
     = (''/tmp/G.docx'',
        ExportMedia ''G''
          ''application/vnd.openxmlformats-officedocument.wordprocessingml.document'')
   \<and> download_file (Suc (Suc 0)) (example_reader None None None) example_service tmp_fs
       ''T'' ''/tmp/T''
     = Some (Some ''/tmp/T'',
           tmp_fs\<lparr>fs_files := [(''/tmp/T'', ''data of T'')]\<rparr>,
           [Call (DriveGet (download_get_request ''T'')),
            Call (DriveNextChunk (GetMedia ''T'') 0),
            Call (DriveNextChunk (GetMedia ''T'') 1)])
   \<and> download_target (example_reader None None None) (plain_file ''T'' ''text/plain'')
       ''T'' ''/tmp/T''
     = (''/tmp/T'', GetMedia ''T'')
   \<and> is_file (tmp_fs\<lparr>fs_files := [(''/tmp/G.docx'', ''export of G'')]\<rparr>) ''/tmp/G.docx''
   \<and> is_file (tmp_fs\<lparr>fs_files := [(''/tmp/T'', ''data of T'')]\<rparr>) ''/tmp/T''"
proof -
  have tab: "priv_mimetypes (example_reader None None None) = mimetypes_table"
    by (simp add: example_reader_def)
  have g: "files_get example_service (download_get_request ''G'')
             = Inr (plain_file ''G'' ''application/vnd.google-apps.document'')"
    by (simp add: example_service_def download_get_request_def example_files_def)
  have t: "files_get example_service (download_get_request ''T'')
             = Inr (plain_file ''T'' ''text/plain'')"
    by (simp add: example_service_def download_get_request_def example_files_def)
  have gm: "f_mimeType (plain_file ''G'' ''application/vnd.google-apps.document'')
              = ''application/vnd.google-apps.document''"
    and tm: "f_mimeType (plain_file ''T'' ''text/plain'') = ''text/plain''"
    by (simp_all add: plain_file_def)
  note G = export_mapping[OF tab g, of "''/tmp/G''" "Suc 0" tmp_fs]
  note T = export_mapping[OF tab t, of "''/tmp/T''" "Suc (Suc 0)" tmp_fs]
  have 1: "download_target (example_reader None None None)
       (plain_file ''G'' ''application/vnd.google-apps.document'') ''G'' ''/tmp/G''
     = (''/tmp/G.docx'',
        ExportMedia ''G''
          ''application/vnd.openxmlformats-officedocument.wordprocessingml.document'')"
    using G[THEN conjunct1] gm by simp
  have 2: "download_target (example_reader None None None) (plain_file ''T'' ''text/plain'')
       ''T'' ''/tmp/T'' = (''/tmp/T'', GetMedia ''T'')"
    using T[THEN conjunct2, THEN conjunct2, THEN conjunct2, THEN conjunct1] tm by simp
  have 3: "is_file (tmp_fs\<lparr>fs_files := [(''/tmp/G.docx'', ''export of G'')]\<rparr>) ''/tmp/G.docx''"
    using G[THEN conjunct2, THEN conjunct2, THEN conjunct2, THEN conjunct2, rule_format,
        OF example_download_native] by blast
  have 4: "is_file (tmp_fs\<lparr>fs_files := [(''/tmp/T'', ''data of T'')]\<rparr>) ''/tmp/T''"
    using T[THEN conjunct2, THEN conjunct2, THEN conjunct2, THEN conjunct2, rule_format,
        OF example_download_raw] by blast
  from example_download_native example_download_raw 1 2 3 4 show ?thesis by blast
qed

section \<open>Assembly\<close>

lemma map_of_filter_keys:
  "map_of (filter (\<lambda>(k, _). P k) xs) k = (if P k then map_of xs k else None)"
  by (induction xs) auto

lemma rmtree_gone:
  assumes "below d p"
  shows "p \<notin> fs_dirs (rmtree d fs)" and "\<not> is_file (rmtree d fs) p"
  using assms by (simp_all add: rmtree_def is_file_def map_of_filter_keys)

lemma below_self: "below d d"
  by (simp add: below_def)

lemma load_data_fileids_meta_cases:
  assumes "load_data_fileids_meta n h rd svc fs fileids_meta = Some (r, fs', evs)"
  obtains
    (no_temp_dir) e where "mkdtemp h fs = Inl e" "r = None" "fs' = fs"
      "evs = [Log (LogError assembly_failed e)]"
  | (raised) temp_dir e fs2 evs2 where "mkdtemp h fs = Inr temp_dir"
      "in_temp_dir n h rd svc temp_dir (fs\<lparr>fs_dirs := insert temp_dir (fs_dirs fs)\<rparr>)
         fileids_meta = Some (Inl e, fs2, evs2)"
      "r = None" "fs' = rmtree temp_dir fs2" "evs = evs2 @ [Log (LogError assembly_failed e)]"
  | (returned) temp_dir docs fs2 where "mkdtemp h fs = Inr temp_dir"
      "in_temp_dir n h rd svc temp_dir (fs\<lparr>fs_dirs := insert temp_dir (fs_dirs fs)\<rparr>)
         fileids_meta = Some (Inr docs, fs2, evs)"
      "r = Some docs" "fs' = rmtree temp_dir fs2"
proof (cases "mkdtemp h fs")
  case (Inl e)
  with assms show thesis
    by (intro no_temp_dir[of e])
       (auto simp: load_data_fileids_meta_def load_data_fileids_meta_try_def)
next
  case (Inr temp_dir)
  let ?body = "in_temp_dir n h rd svc temp_dir (fs\<lparr>fs_dirs := insert temp_dir (fs_dirs fs)\<rparr>)
                 fileids_meta"
  show thesis
  proof (cases ?body)
    case None
    with assms Inr show thesis
      by (simp add: load_data_fileids_meta_def load_data_fileids_meta_try_def)
  next
    case (Some x)
    obtain r1 fs2 evs2 where x: "x = (r1, fs2, evs2)" by (cases x) auto
    show thesis
    proof (cases r1)
      case (Inl e)
      with assms Inr Some x show thesis
        by (intro raised[of temp_dir e fs2 evs2])
           (auto simp: load_data_fileids_meta_def load_data_fileids_meta_try_def)
    next
      case r1: (Inr docs)
      with assms Inr Some x show thesis
        by (intro returned[of temp_dir docs fs2])
           (auto simp: load_data_fileids_meta_def load_data_fileids_meta_try_def)
    qed
  qed
qed

lemma example_assembly:
  "map_option (\<lambda>(r, fs', evs). (r, fs'))
     (load_data_fileids_meta (Suc (Suc 0)) example_host (example_reader None None None)
        example_service tmp_fs
        (Some [meta_of_file ''G'' ''application/vnd.google-apps.document'',
               meta_of_file ''T'' ''text/plain'']))
   = Some (Some [example_document ''G'' ''application/vnd.google-apps.document'' ''export of G'',
                 example_document ''T'' ''text/plain'' ''data of T''],
           tmp_fs)"
  by code_simp

lemma example_assembly_failing:
  "map_option (\<lambda>(r, fs', evs). (r, fs', last evs))
     (load_data_fileids_meta (Suc (Suc 0)) failing_host (example_reader None None None)
        example_service tmp_fs
        (Some [meta_of_file ''G'' ''application/vnd.google-apps.document'',
               meta_of_file ''T'' ''text/plain'']))
   = Some (None, tmp_fs, Log (LogError assembly_failed (ExtractionError ''unreadable'')))"
  by code_simp

text \<open>
  C9. When an assembly has completed, with documents or with the absent result of a caught
  exception, the scratch directory the context manager created does not exist any more,
  and neither does anything below it.
\<close>

theorem scratch_directory_removed:
  assumes "load_data_fileids_meta n h rd svc fs fileids_meta = Some (r, fs', evs)"
    and "mkdtemp h fs = Inr temp_dir"
  shows "temp_dir \<notin> fs_dirs fs' \<and> \<not> is_file fs' temp_dir
       \<and> (\<forall>p. below temp_dir p \<longrightarrow> p \<notin> fs_dirs fs' \<and> \<not> is_file fs' p)"
  using assms(1)
proof (cases rule: load_data_fileids_meta_cases)
  case (no_temp_dir e)
  with assms(2) show ?thesis by simp
next
  case (raised temp_dir' e fs2 evs2)
  with assms(2) have "fs' = rmtree temp_dir fs2" by simp
  then show ?thesis using rmtree_gone below_self by blast
next
  case (returned temp_dir' docs fs2)
  with assms(2) have "fs' = rmtree temp_dir fs2" by simp
  then show ?thesis using rmtree_gone below_self by blast
qed

theorem scratch_directory_removed_witness:
  "mkdtemp example_host tmp_fs = Inr ''/tmp/scratch''
   \<and> map_option (\<lambda>(r, fs', evs). (r, fs'))
       (load_data_fileids_meta (Suc (Suc 0)) example_host (example_reader None None None)
          example_service tmp_fs
          (Some [meta_of_file ''G'' ''application/vnd.google-apps.document'',
                 meta_of_file ''T'' ''text/plain'']))
     = Some (Some [example_document ''G'' ''application/vnd.google-apps.document'' ''export of G'',
                   example_document ''T'' ''text/plain'' ''data of T''],
             tmp_fs)
   \<and> mkdtemp failing_host tmp_fs = Inr ''/tmp/scratch''
   \<and> map_option (\<lambda>(r, fs', evs). (r, fs', last evs))
       (load_data_fileids_meta (Suc (Suc 0)) failing_host (example_reader None None None)
          example_service tmp_fs
          (Some [meta_of_file ''G'' ''application/vnd.google-apps.document'',
                 meta_of_file ''T'' ''text/plain'']))
     = Some (None, tmp_fs, Log (LogError assembly_failed (ExtractionError ''unreadable'')))
   \<and> ''/tmp/scratch'' \<notin> fs_dirs tmp_fs
   \<and> \<not> is_file tmp_fs ''/tmp/scratch/G.docx''"
proof -
  let ?metas = "Some [meta_of_file ''G'' ''application/vnd.google-apps.document'',
                      meta_of_file ''T'' ''text/plain'']"
  have m1: "mkdtemp example_host tmp_fs = Inr ''/tmp/scratch''"
    by (simp add: example_host_def)
  have m2: "mkdtemp failing_host tmp_fs = Inr ''/tmp/scratch''"
    by (simp add: failing_host_def)
  from example_assembly obtain evs where
    run1: "load_data_fileids_meta (Suc (Suc 0)) example_host (example_reader None None None)
             example_service tmp_fs ?metas
           = Some (Some [example_document ''G'' ''application/vnd.google-apps.document''
                           ''export of G'',
                         example_document ''T'' ''text/plain'' ''data of T''], tmp_fs, evs)"
    by auto
  from example_assembly_failing obtain evs' where
    run2: "load_data_fileids_meta (Suc (Suc 0)) failing_host (example_reader None None None)
             example_service tmp_fs ?metas = Some (None, tmp_fs, evs')"
    by auto
  have b: "below ''/tmp/scratch'' ''/tmp/scratch/G.docx''"
    by (simp add: below_def)
  from scratch_directory_removed[OF run1 m1] b
  have "''/tmp/scratch'' \<notin> fs_dirs tmp_fs" "\<not> is_file tmp_fs ''/tmp/scratch/G.docx''"
    by blast+
  moreover from scratch_directory_removed[OF run2 m2]
  have "''/tmp/scratch'' \<notin> fs_dirs tmp_fs" by blast
  ultimately show ?thesis
    using m1 m2 example_assembly example_assembly_failing by blast
qed

lemma stage_files_metadata:
  assumes "stage_files n rd svc temp_dir metas metadata fs = Some (metadata', fs', evs)"
    and "map_of metadata' k = Some md"
  shows "map_of metadata k = Some md \<or> (\<exists>fm \<in> set metas. md = metadata_of fm)"
  using assms
proof (induction metas arbitrary: metadata fs evs)
  case Nil
  then show ?case by simp
next
  case (Cons fm metas)
  from Cons.prems(1) obtain final_filepath fs1 evs1 evs2 where
    rest: "stage_files n rd svc temp_dir metas
             (AList.update final_filepath (metadata_of fm) metadata) fs1
           = Some (metadata', fs', evs2)"
    by (auto simp: Let_def after_events_Some split: option.splits prod.splits)
  from Cons.IH[OF rest Cons.prems(2)] show ?case
    by (auto simp: update_conv' split: if_splits)
qed

lemma load_files_metadata:
  assumes "load_files extr file_metadata files = Inr docs" and "doc \<in> set docs"
  shows "\<exists>path. file_metadata path = Inr (doc_metadata doc)"
  using assms
proof (induction files arbitrary: docs)
  case Nil
  then show ?case by simp
next
  case (Cons f files)
  obtain path content where f: "f = (path, content)" by (cases f) auto
  from Cons.prems(1) f obtain md parts docs' where
    md: "file_metadata path = Inr md" and
    rest: "load_files extr file_metadata files = Inr docs'" and
    docs: "docs = map (\<lambda>(i, t). \<lparr>doc_id = i, doc_text = t, doc_metadata = md\<rparr>) parts @ docs'"
    by (auto split: sum.splits)
  show ?case
  proof (cases "doc \<in> set docs'")
    case True
    with Cons.IH[OF rest] show ?thesis by blast
  next
    case False
    with Cons.prems(2) docs have "doc_metadata doc = md" by auto
    with md show ?thesis by auto
  qed
qed

lemma metadata_of_inj: "metadata_of fm = metadata_of fm' \<Longrightarrow> fm = fm'"
  by (cases fm, cases fm') (simp add: metadata_of_def)

lemma set_id_metadata_of:
  "doc_metadata d = metadata_of fm
     \<Longrightarrow> doc_id (set_id d) = fm_id fm \<and> doc_metadata (set_id d) = metadata_of fm"
  by (simp add: set_id_def metadata_of_def)

lemma in_temp_dir_documents:
  assumes "in_temp_dir n h rd svc temp_dir fs (Some metas) = Some (Inr docs, fs', evs)"
    and "doc \<in> set docs"
  shows "\<exists>fm \<in> set metas. doc_id doc = fm_id fm \<and> doc_metadata doc = metadata_of fm"
proof -
  from assms(1) obtain metadata documents where
    st: "stage_files n rd svc temp_dir metas [] fs = Some (metadata, fs', evs)" and
    ld: "simple_directory_reader (extract_text h) fs' temp_dir (get_metadata metadata)
           = Inr documents" and
    docs: "docs = map set_id documents"
    by (auto simp: in_temp_dir_def split: option.splits sum.splits)
  from assms(2) docs obtain d where d: "d \<in> set documents" "doc = set_id d" by auto
  from load_files_metadata[OF ld[unfolded simple_directory_reader_def] d(1)]
  obtain path where "get_metadata metadata path = Inr (doc_metadata d)" by blast
  then have "map_of metadata (Some path) = Some (doc_metadata d)"
    by (auto simp: get_metadata_def split: option.splits)
  from stage_files_metadata[OF st this]
  obtain fm where fm: "fm \<in> set metas" "doc_metadata d = metadata_of fm" by auto
  with set_id_metadata_of[OF fm(2)] d(2) show ?thesis by auto
qed

lemma distinct_ids_count:
  assumes "distinct (map f xs)" and "x \<in> set xs"
  shows "length (filter (\<lambda>y. f y = f x) xs) = 1"
  using assms
proof (induction xs)
  case Nil
  then show ?case by simp
next
  case (Cons a xs)
  show ?case
  proof (cases "f a = f x")
    case True
    with Cons.prems have "\<forall>y \<in> set xs. f y \<noteq> f x"
      by (metis distinct.simps(2) image_eqI list.simps(9) set_map)
    then have "filter (\<lambda>y. f y = f x) xs = []" by (simp add: filter_empty_conv)
    with True show ?thesis by simp
  next
    case False
    with Cons show ?thesis by auto
  qed
qed

text \<open>
  C6, as the claim states it, fails where the same file is supplied twice (as
  \<^verbatim>\<open>load_data(file_ids=["T", "T"])\<close> does): the file is staged once, under one path, and the
  identifier of its Document is the id of two of the tuples supplied, not of exactly one.
  The same happens when the two tuples differ (the file was modified between the two
  lookups): the later tuple replaces the earlier one under the path, and the two tuples
  supplied are different tuples with the Document's id.
\<close>

theorem document_ids_counterexample:
  "map_option (\<lambda>(r, fs', evs). r)
     (load_data_fileids_meta (Suc (Suc 0)) example_host (example_reader None None None)
        example_service tmp_fs
        (Some [meta_of_file ''T'' ''text/plain'', meta_of_file ''T'' ''text/plain'']))
   = Some (Some [example_document ''T'' ''text/plain'' ''data of T''])
   \<and> length (filter (\<lambda>fm. fm_id fm = doc_id (example_document ''T'' ''text/plain'' ''data of T''))
               [meta_of_file ''T'' ''text/plain'', meta_of_file ''T'' ''text/plain'']) = 2
   \<and> map_option (\<lambda>(r, fs', evs). map_option (map doc_id) r)
       (load_data_fileids_meta (Suc (Suc 0)) example_host (example_reader None None None)
          example_service tmp_fs
          (Some [meta_of_file ''T'' ''text/plain'',
                 (meta_of_file ''T'' ''text/plain'')\<lparr>fm_modifiedTime := ''2024-03-03''\<rparr>]))
     = Some (Some [''T''])
   \<and> meta_of_file ''T'' ''text/plain''
       \<noteq> (meta_of_file ''T'' ''text/plain'')\<lparr>fm_modifiedTime := ''2024-03-03''\<rparr>
   \<and> fm_id (meta_of_file ''T'' ''text/plain'') = ''T''
   \<and> fm_id ((meta_of_file ''T'' ''text/plain'')\<lparr>fm_modifiedTime := ''2024-03-03''\<rparr>) = ''T''"
  by code_simp

text \<open>
  C6, amended. The identifier of every Document that an assembly returns is the id of one
  of the tuples supplied, so no Document has an id that is not among the ids supplied; it
  is the id of exactly one supplied tuple when the supplied tuples have pairwise distinct
  ids. In every case the metadata block of the Document holds the six fields of one
  supplied tuple, and its identifier is the id of that tuple.
\<close>

theorem document_ids_from_input:
  assumes "load_data_fileids_meta n h rd svc fs (Some metas) = Some (Some docs, fs', evs)"
    and "doc \<in> set docs"
  shows "doc_id doc \<in> fm_id ` set metas
       \<and> (distinct (map fm_id metas)
            \<longrightarrow> length (filter (\<lambda>fm. fm_id fm = doc_id doc) metas) = 1)
       \<and> (\<exists>!fm. fm \<in> set metas \<and> doc_metadata doc = metadata_of fm)
       \<and> (\<forall>fm. fm \<in> set metas \<and> doc_metadata doc = metadata_of fm \<longrightarrow> doc_id doc = fm_id fm)"
proof -
  from assms(1) obtain temp_dir fs2 where
    "in_temp_dir n h rd svc temp_dir (fs\<lparr>fs_dirs := insert temp_dir (fs_dirs fs)\<rparr>)
       (Some metas) = Some (Inr docs, fs2, evs)"
    by (cases rule: load_data_fileids_meta_cases) auto
  from in_temp_dir_documents[OF this assms(2)] obtain fm where
    fm: "fm \<in> set metas" "doc_id doc = fm_id fm" "doc_metadata doc = metadata_of fm"
    by blast
  have 1: "doc_id doc \<in> fm_id ` set metas"
    using fm(1,2) by auto
  have 2: "length (filter (\<lambda>fm. fm_id fm = doc_id doc) metas) = 1"
    if "distinct (map fm_id metas)"
    using distinct_ids_count[OF that fm(1)] fm(2) by simp
  have 3: "\<exists>!fm. fm \<in> set metas \<and> doc_metadata doc = metadata_of fm"
    using fm(1,3) metadata_of_inj by (intro ex1I[of _ fm]) auto
  have 4: "\<forall>fm. fm \<in> set metas \<and> doc_metadata doc = metadata_of fm \<longrightarrow> doc_id doc = fm_id fm"
    using fm(2,3) metadata_of_inj by auto
  from 1 2 3 4 show ?thesis by blast
qed

theorem document_ids_from_input_witness:
  "map_option (\<lambda>(r, fs', evs). (r, fs'))
       (load_data_fileids_meta (Suc (Suc 0)) example_host (example_reader None None None)
          example_service tmp_fs
          (Some [meta_of_file ''G'' ''application/vnd.google-apps.document'',
                 meta_of_file ''T'' ''text/plain'']))
     = Some (Some [example_document ''G'' ''application/vnd.google-apps.document'' ''export of G'',
                   example_document ''T'' ''text/plain'' ''data of T''],
             tmp_fs)
   \<and> distinct (map fm_id [meta_of_file ''G'' ''application/vnd.google-apps.document'',
                            meta_of_file ''T'' ''text/plain''])
   \<and> doc_id (example_document ''T'' ''text/plain'' ''data of T'')
       \<in> fm_id ` set [meta_of_file ''G'' ''application/vnd.google-apps.document'',
                        meta_of_file ''T'' ''text/plain'']
   \<and> length (filter (\<lambda>fm. fm_id fm = doc_id (example_document ''T'' ''text/plain'' ''data of T''))
               [meta_of_file ''G'' ''application/vnd.google-apps.document'',
                meta_of_file ''T'' ''text/plain'']) = 1
   \<and> (\<exists>!fm. fm \<in> set [meta_of_file ''G'' ''application/vnd.google-apps.document'',
                         meta_of_file ''T'' ''text/plain'']
           \<and> doc_metadata (example_document ''T'' ''text/plain'' ''data of T'') = metadata_of fm)"
proof -
  let ?metas = "[meta_of_file ''G'' ''application/vnd.google-apps.document'',
                 meta_of_file ''T'' ''text/plain'']"
  let ?docs = "[example_document ''G'' ''application/vnd.google-apps.document'' ''export of G'',
                example_document ''T'' ''text/plain'' ''data of T'']"
  from example_assembly obtain evs where
    run: "load_data_fileids_meta (Suc (Suc 0)) example_host (example_reader None None None)
             example_service tmp_fs (Some ?metas) = Some (Some ?docs, tmp_fs, evs)"
    by auto
  have d: "example_document ''T'' ''text/plain'' ''data of T'' \<in> set ?docs" by simp
  have i: "distinct (map fm_id ?metas)" by (simp add: meta_of_file_def)
  note inst = document_ids_from_input[OF run d]
  from inst i example_assembly show ?thesis by blast
qed

section \<open>Failures at the boundary of each operation\<close>

lemma download_chunks_failed_call:
  "download_chunks n svc request k file_data = Some (r, evs)
     \<Longrightarrow> Call c \<in> set evs \<Longrightarrow> call_failed svc c e \<Longrightarrow> r = Inl e"
proof (induction n arbitrary: k file_data r evs)
  case 0
  then show ?case by simp
next
  case (Suc n)
  show ?case
  proof (cases "next_chunk svc request k")
    case (Inl e0)
    with Suc.prems show ?thesis by auto
  next
    case (Inr x)
    obtain bytes fin where x: "x = (bytes, fin)" by (cases x) auto
    show ?thesis
    proof (cases fin)
      case True
      with Suc.prems Inr x show ?thesis by auto
    next
      case False
      with Suc.prems(1) Inr x obtain evs' where
        rest: "download_chunks n svc request (Suc k) (file_data @ bytes) = Some (r, evs')"
        and evs: "evs = Call (DriveNextChunk request k) # evs'"
        by auto
      from Suc.prems(2,3) evs Inr have "Call c \<in> set evs'" by auto
      from Suc.IH[OF rest this Suc.prems(3)] show ?thesis .
    qed
  qed
qed

lemma download_file_failed_call:
  assumes "download_file n rd svc fs fileid filename = Some (r, fs', evs)"
    and "Call c \<in> set evs" and "call_failed svc c e"
  shows "r = None \<and> fs' = fs \<and> last evs = Log (LogError download_failed e)"
  using assms(1)
proof (cases rule: download_file_cases)
  case (get_failed e0)
  with assms(2,3) show ?thesis by auto
next
  case (chunk_failed fl e0 evs1)
  from assms(2,3) chunk_failed(1,5) have "Call c \<in> set evs1" by auto
  from download_chunks_failed_call[OF chunk_failed(2) this assms(3)] chunk_failed
  show ?thesis by simp
next
  case (write_failed fl file_data e0 evs1)
  from assms(2,3) write_failed(1,6) have "Call c \<in> set evs1" by auto
  from download_chunks_failed_call[OF write_failed(2) this assms(3)]
  show ?thesis by simp
next
  case (written fl file_data evs1)
  from assms(2,3) written(1,5) have "Call c \<in> set evs1" by auto
  from download_chunks_failed_call[OF written(2) this assms(3)]
  show ?thesis by simp
qed

lemma stage_files_failed_call:
  "stage_files n rd svc temp_dir metas metadata fs = Some (metadata', fs', evs)
     \<Longrightarrow> Call c \<in> set evs \<Longrightarrow> call_failed svc c e
     \<Longrightarrow> Log (LogError download_failed e) \<in> set evs"
proof (induction metas arbitrary: metadata fs evs)
  case Nil
  then show ?case by simp
next
  case (Cons fm rest)
  from Cons.prems(1) obtain p fs1 evs1 evs2 where
    d: "download_file n rd svc fs (fm_id fm) (path_join temp_dir (fm_id fm)) = Some (p, fs1, evs1)"
    and s: "stage_files n rd svc temp_dir rest (AList.update p (metadata_of fm) metadata) fs1
              = Some (metadata', fs', evs2)"
    and evs: "evs = evs1 @ evs2"
    by (auto simp: Let_def after_events_Some split: option.splits)
  from Cons.prems(2) evs consider "Call c \<in> set evs1" | "Call c \<in> set evs2" by auto
  then show ?case
  proof cases
    case 1
    from download_file_failed_call[OF d 1 Cons.prems(3)] 1
    have "Log (LogError download_failed e) \<in> set evs1"
      by (metis last_in_set empty_iff empty_set)
    with evs show ?thesis by simp
  next
    case 2
    from Cons.IH[OF s 2 Cons.prems(3)] evs show ?thesis by simp
  qed
qed

lemma load_data_fileids_meta_failed_call:
  assumes "load_data_fileids_meta n h rd svc fs fileids_meta = Some (r, fs', evs)"
    and "Call c \<in> set evs" and "call_failed svc c e"
  shows "Log (LogError download_failed e) \<in> set evs"
proof -
  have body: "Log (LogError download_failed e) \<in> set evs2"
    if "in_temp_dir n h rd svc t fs0 fileids_meta = Some (r2, fs2, evs2)"
      and "Call c \<in> set evs2" for t fs0 r2 fs2 evs2
  proof (cases fileids_meta)
    case None
    with that show ?thesis by (simp add: in_temp_dir_def)
  next
    case (Some metas)
    with that(1) obtain md where
      "stage_files n rd svc t metas [] fs0 = Some (md, fs2, evs2)"
      by (auto simp: in_temp_dir_def split: option.splits sum.splits)
    from stage_files_failed_call[OF this that(2) assms(3)] show ?thesis .
  qed
  from assms(1) show ?thesis
  proof (cases rule: load_data_fileids_meta_cases)
    case (no_temp_dir e0)
    with assms(2) show ?thesis by simp
  next
    case (raised temp_dir e0 fs2 evs2)
    with assms(2) have "Call c \<in> set evs2" by simp
    from body[OF raised(2) this] raised(5) show ?thesis by simp
  next
    case (returned temp_dir docs fs2)
    from body[OF returned(2) assms(2)] show ?thesis .
  qed
qed

lemma process_items_failed_call:
  assumes IH: "\<forall>d f fi ms qs r ms' evs.
            get_fileids_meta n svc d f fi ms qs = Some (r, ms', evs)
              \<longrightarrow> Call c \<in> set evs
              \<longrightarrow> r = None \<and> Log (LogError enumeration_failed e) \<in> set evs"
    and "process_items n svc d ms qs items acc = Some (r, ms', evs)"
    and "Call c \<in> set evs"
  shows "(\<exists>e'. r = Inl e') \<and> Log (LogError enumeration_failed e) \<in> set evs"
  using assms(2,3)
proof (induction items arbitrary: acc ms evs)
  case Nil
  then show ?case by simp
next
  case (Cons item items)
  from Cons.prems(1) show ?case
  proof (cases rule: process_items_Cons_cases)
    case (plain m)
    from Cons.IH[OF plain(3) Cons.prems(2)] show ?thesis .
  next
    case (plain_failed e0)
    with Cons.prems(2) show ?thesis by simp
  next
    case folder_failed
    from IH[rule_format, OF folder_failed(2) Cons.prems(2)] folder_failed(3)
    show ?thesis by simp
  next
    case (folder sub m1 e1 e2)
    from Cons.prems(2) folder(4) consider "Call c \<in> set e1" | "Call c \<in> set e2" by auto
    then show ?thesis
    proof cases
      case 1
      from IH[rule_format, OF folder(2) 1] show ?thesis by simp
    next
      case 2
      from Cons.IH[OF folder(3) 2] folder(4) show ?thesis by simp
    qed
  qed
qed

lemma get_fileids_meta_failed_call:
  "get_fileids_meta n svc d f fi ms qs = Some (r, ms', evs)
     \<Longrightarrow> Call c \<in> set evs \<Longrightarrow> call_failed svc c e
     \<Longrightarrow> r = None \<and> Log (LogError enumeration_failed e) \<in> set evs"
proof (induction n arbitrary: d f fi ms qs r ms' evs)
  case 0
  then show ?case by simp
next
  case (Suc n)
  from Suc.prems(1) obtain r0 evs0 where
    tr: "get_fileids_meta_try (Suc n) svc d f fi ms qs = Some (r0, ms', evs0)"
    and c: "catch_enumeration (r0, ms', evs0) = (r, ms', evs)"
    by (cases "get_fileids_meta_try (Suc n) svc d f fi ms qs")
       (auto simp: get_fileids_meta_def catch_enumeration_mime
             elim!: catch_enumeration.elims)
  have IH: "\<forall>d f fi ms qs r ms' evs.
            get_fileids_meta n svc d f fi ms qs = Some (r, ms', evs)
              \<longrightarrow> Call c \<in> set evs
              \<longrightarrow> r = None \<and> Log (LogError enumeration_failed e) \<in> set evs"
    using Suc.IH Suc.prems(3) by blast
  have q: "r0 = Inl e \<or> ((\<exists>e'. r0 = Inl e') \<and> Log (LogError enumeration_failed e) \<in> set evs0)"
    if mem: "Call c \<in> set evs0"
  proof (cases "truthy_str f")
    case True
    then obtain fo where f: "f = Some fo" and fo: "fo \<noteq> []" by (cases f) auto
    from tr[unfolded f] fo show ?thesis
    proof (cases rule: get_fileids_meta_try_folder_cases)
      case (listing_failed e0)
      with mem Suc.prems(3) show ?thesis by auto
    next
      case (listed results evs2)
      from mem listed(1,4) Suc.prems(3) have "Call c \<in> set evs2" by auto
      from process_items_failed_call[OF IH listed(3) this] listed(4) show ?thesis by simp
    qed
  next
    case False
    with tr mem Suc.prems(3) show ?thesis
      by (auto simp: Let_def split: option.splits sum.splits)
  qed
  show ?case
  proof (cases r0)
    case (Inl e0)
    with c have r: "r = None" and evs: "evs = evs0 @ [Log (LogError enumeration_failed e0)]"
      by simp_all
    from Suc.prems(2) evs have "Call c \<in> set evs0" by simp
    from q[OF this] Inl r evs show ?thesis by auto
  next
    case (Inr metas)
    with c have "evs = evs0" by simp
    with Suc.prems(2) q Inr show ?thesis by auto
  qed
qed

lemma get_fileids_meta_None_logged:
  assumes "get_fileids_meta n svc d f fi ms qs = Some (None, ms', evs)"
  shows "\<exists>e'. evs \<noteq> [] \<and> last evs = Log (LogError enumeration_failed e')"
proof -
  from assms obtain x where "catch_enumeration x = (None, ms', evs)"
    by (auto simp: get_fileids_meta_def)
  then show ?thesis by (cases x rule: catch_enumeration.cases) auto
qed

lemma in_temp_dir_loader_failed:
  assumes "stage_files n rd svc temp_dir metas [] fs = Some (metadata, fs2, evs)"
    and "simple_directory_reader (extract_text h) fs2 temp_dir (get_metadata metadata) = Inl e"
  shows "in_temp_dir n h rd svc temp_dir fs (Some metas) = Some (Inl e, fs2, evs)"
  using assms by (simp add: in_temp_dir_def)

text \<open>
  C3. A remote call that has failed is caught at the boundary of the operation inside
  which it was made, whatever the fuel, the provider and the arguments.
  \<^item> Enumeration: when a listing or a metadata request of a returned enumeration has failed,
    at any depth of the recursion, the enumeration returns the absent result, the exception
    is in an error entry of its log, and the log ends with an error entry (that of the
    exception, or that of the \<^verbatim>\<open>TypeError\<close> raised where the absent result of a subfolder is
    appended to the list).
  \<^item> Materialization: when the metadata request or a chunk request of a returned download
    has failed, the download returns the absent path, the file system is as it was, and the
    log ends with the error entry of the exception.
  \<^item> Assembly: its remote calls are those of its downloads, so a failed one is in an error
    entry logged at the boundary of the download. When the extraction over the staged files
    raises, the assembly returns the absent result, the scratch directory being removed, and
    the log ends with the error entry of the exception.

  The last five parts give the whole result where the first listing, the metadata request of
  a single-file enumeration, the metadata request of a download, the write of the downloaded
  bytes or the creation of the scratch directory fails.
\<close>

theorem failures_caught_at_boundary:
  "(get_fileids_meta n svc drive_id folder_id file_id mime_types query_string
      = Some (r, ms', evs)
      \<and> Call c \<in> set evs \<and> call_failed svc c e
    \<longrightarrow> r = None \<and> Log (LogError enumeration_failed e) \<in> set evs
        \<and> (\<exists>e'. last evs = Log (LogError enumeration_failed e')))
   \<and> (download_file n rd svc fs fileid filename = Some (p, fs', evs)
      \<and> Call c \<in> set evs \<and> call_failed svc c e
    \<longrightarrow> p = None \<and> fs' = fs \<and> last evs = Log (LogError download_failed e))
   \<and> (load_data_fileids_meta n h rd svc fs fileids_meta = Some (docs, fs', evs)
      \<and> Call c \<in> set evs \<and> call_failed svc c e
    \<longrightarrow> Log (LogError download_failed e) \<in> set evs)
   \<and> (mkdtemp h fs = Inr temp_dir
      \<and> stage_files n rd svc temp_dir metas [] (fs\<lparr>fs_dirs := insert temp_dir (fs_dirs fs)\<rparr>)
          = Some (metadata, fs2, evs)
      \<and> simple_directory_reader (extract_text h) fs2 temp_dir (get_metadata metadata) = Inl e
    \<longrightarrow> load_data_fileids_meta n h rd svc fs (Some metas)
        = Some (None, rmtree temp_dir fs2, evs @ [Log (LogError assembly_failed e)]))
   \<and> (folder \<noteq> []
      \<and> files_list svc (make_list_request drive_id
           (build_query folder (keep_recursiveness mime_types) query_string)) = Inl e
    \<longrightarrow> get_fileids_meta (Suc n) svc drive_id (Some folder) file_id mime_types query_string
        = Some (None, keep_recursiveness mime_types,
                [Call (DriveList (make_list_request drive_id
                         (build_query folder (keep_recursiveness mime_types) query_string))),
                 Log (LogError enumeration_failed e)]))
   \<and> (files_get svc \<lparr>gr_fileId = fileid, gr_supportsAllDrives = True, gr_fields = Some ''*''\<rparr>
        = Inl e
    \<longrightarrow> get_fileids_meta (Suc n) svc drive_id None (Some fileid) mime_types query_string
        = Some (None, mime_types,
                [Call (DriveGet \<lparr>gr_fileId = fileid, gr_supportsAllDrives = True,
                                 gr_fields = Some ''*''\<rparr>),
                 Log (LogError enumeration_failed e)]))
   \<and> (files_get svc (download_get_request fileid) = Inl e
    \<longrightarrow> download_file n rd svc fs fileid filename
        = Some (None, fs, [Call (DriveGet (download_get_request fileid)),
                           Log (LogError download_failed e)]))
   \<and> (files_get svc (download_get_request fileid) = Inr fl
      \<and> download_chunks n svc (snd (download_target rd fl fileid filename)) 0 []
          = Some (Inr file_data, evs)
      \<and> open_write fs (fst (download_target rd fl fileid filename)) file_data = Inl e
    \<longrightarrow> download_file n rd svc fs fileid filename
        = Some (None, fs, Call (DriveGet (download_get_request fileid)) # evs
                            @ [Log (LogError download_failed e)]))
   \<and> (mkdtemp h fs = Inl e
    \<longrightarrow> load_data_fileids_meta n h rd svc fs fileids_meta
        = Some (None, fs, [Log (LogError assembly_failed e)]))"
proof (intro conjI impI)
  assume a: "get_fileids_meta n svc drive_id folder_id file_id mime_types query_string
      = Some (r, ms', evs)
      \<and> Call c \<in> set evs \<and> call_failed svc c e"
  from a have g: "get_fileids_meta n svc drive_id folder_id file_id mime_types query_string
      = Some (r, ms', evs)" and c: "Call c \<in> set evs" and f: "call_failed svc c e"
    by simp_all
  note t = get_fileids_meta_failed_call[OF g c f]
  from t show "r = None" by simp
  from t show "Log (LogError enumeration_failed e) \<in> set evs" by simp
  from g t get_fileids_meta_None_logged[of n svc drive_id folder_id file_id mime_types
      query_string ms' evs]
  show "\<exists>e'. last evs = Log (LogError enumeration_failed e')" by auto
next
  assume a: "download_file n rd svc fs fileid filename = Some (p, fs', evs)
      \<and> Call c \<in> set evs \<and> call_failed svc c e"
  from a have g: "download_file n rd svc fs fileid filename = Some (p, fs', evs)"
    and c: "Call c \<in> set evs" and f: "call_failed svc c e"
    by simp_all
  note t = download_file_failed_call[OF g c f]
  from t show "p = None" by simp
  from t show "fs' = fs" by simp
  from t show "last evs = Log (LogError download_failed e)" by simp
next
  assume a: "load_data_fileids_meta n h rd svc fs fileids_meta = Some (docs, fs', evs)
      \<and> Call c \<in> set evs \<and> call_failed svc c e"
  from a have g: "load_data_fileids_meta n h rd svc fs fileids_meta = Some (docs, fs', evs)"
    and c: "Call c \<in> set evs" and f: "call_failed svc c e"
    by simp_all
  from load_data_fileids_meta_failed_call[OF g c f]
  show "Log (LogError download_failed e) \<in> set evs" .
next
  assume a: "mkdtemp h fs = Inr temp_dir
      \<and> stage_files n rd svc temp_dir metas [] (fs\<lparr>fs_dirs := insert temp_dir (fs_dirs fs)\<rparr>)
          = Some (metadata, fs2, evs)
      \<and> simple_directory_reader (extract_text h) fs2 temp_dir (get_metadata metadata) = Inl e"
  from a have m: "mkdtemp h fs = Inr temp_dir"
    and s: "stage_files n rd svc temp_dir metas [] (fs\<lparr>fs_dirs := insert temp_dir (fs_dirs fs)\<rparr>)
          = Some (metadata, fs2, evs)"
    and l: "simple_directory_reader (extract_text h) fs2 temp_dir (get_metadata metadata) = Inl e"
    by simp_all
  from in_temp_dir_loader_failed[OF s l] m
  show "load_data_fileids_meta n h rd svc fs (Some metas)
        = Some (None, rmtree temp_dir fs2, evs @ [Log (LogError assembly_failed e)])"
    by (simp add: load_data_fileids_meta_def load_data_fileids_meta_try_def)
next
  assume "folder \<noteq> []
      \<and> files_list svc (make_list_request drive_id
           (build_query folder (keep_recursiveness mime_types) query_string)) = Inl e"
  then show "get_fileids_meta (Suc n) svc drive_id (Some folder) file_id mime_types query_string
        = Some (None, keep_recursiveness mime_types,
                [Call (DriveList (make_list_request drive_id
                         (build_query folder (keep_recursiveness mime_types) query_string))),
                 Log (LogError enumeration_failed e)])"
    by (simp add: get_fileids_meta_def Let_def)
next
  assume "files_get svc \<lparr>gr_fileId = fileid, gr_supportsAllDrives = True,
                          gr_fields = Some ''*''\<rparr> = Inl e"
  then show "get_fileids_meta (Suc n) svc drive_id None (Some fileid) mime_types query_string
        = Some (None, mime_types,
                [Call (DriveGet \<lparr>gr_fileId = fileid, gr_supportsAllDrives = True,
                                 gr_fields = Some ''*''\<rparr>),
                 Log (LogError enumeration_failed e)])"
    by (simp add: get_fileids_meta_def Let_def)
next
  assume "files_get svc (download_get_request fileid) = Inl e"
  then show "download_file n rd svc fs fileid filename
        = Some (None, fs, [Call (DriveGet (download_get_request fileid)),
                           Log (LogError download_failed e)])"
    by (simp add: download_file_def download_file_try_def)
next
  assume a: "files_get svc (download_get_request fileid) = Inr fl
      \<and> download_chunks n svc (snd (download_target rd fl fileid filename)) 0 []
          = Some (Inr file_data, evs)
      \<and> open_write fs (fst (download_target rd fl fileid filename)) file_data = Inl e"
  then have "download_file_try n rd svc fs fileid filename
               = Some (Inl e, fs, Call (DriveGet (download_get_request fileid)) # evs)"
    by (simp add: download_file_try_got[of svc fileid fl])
  then show "download_file n rd svc fs fileid filename
        = Some (None, fs, Call (DriveGet (download_get_request fileid)) # evs
                            @ [Log (LogError download_failed e)])"
    by (simp add: download_file_def)
next
  assume "mkdtemp h fs = Inl e"
  then show "load_data_fileids_meta n h rd svc fs fileids_meta
        = Some (None, fs, [Log (LogError assembly_failed e)])"
    by (simp add: load_data_fileids_meta_def load_data_fileids_meta_try_def)
qed

lemma example_enumeration_nested_failing:
  "get_fileids_meta (Suc (Suc 0)) broken_subfolder_service None (Some ''F'') None None None
   = Some (None, None,
           [Call (DriveList (make_list_request None (build_query ''F'' None None))),
            Call (DriveList (make_list_request None (build_query ''S'' None None))),
            Log (LogError enumeration_failed (HttpError ''500'')),
            Log (LogError enumeration_failed (TypeError ''NoneType object is not iterable''))])"
  by code_simp

lemma example_download_interrupted:
  "download_file (Suc (Suc 0)) (example_reader None None None) interrupted_service tmp_fs
     ''T'' ''/tmp/T''
   = Some (None, tmp_fs,
           [Call (DriveGet (download_get_request ''T'')),
            Call (DriveNextChunk (GetMedia ''T'') 0),
            Call (DriveNextChunk (GetMedia ''T'') 1),
            Log (LogError download_failed (HttpError ''connection reset''))])"
  by code_simp

lemma example_assembly_interrupted:
  "map_option (\<lambda>(r, fs', evs). (fs', take 3 evs))
     (load_data_fileids_meta (Suc (Suc 0)) example_host (example_reader None None None)
        interrupted_service tmp_fs (Some [meta_of_file ''T'' ''text/plain'']))
   = Some (tmp_fs,
           [Call (DriveGet (download_get_request ''T'')),
            Call (DriveNextChunk (GetMedia ''T'') 0),
            Call (DriveNextChunk (GetMedia ''T'') 1)])"
  by code_simp

lemma example_staging:
  "stage_files (Suc (Suc 0)) (example_reader None None None) example_service ''/tmp/scratch''
     [meta_of_file ''T'' ''text/plain''] []
     (tmp_fs\<lparr>fs_dirs := insert ''/tmp/scratch'' (fs_dirs tmp_fs)\<rparr>)
   = Some ([(Some ''/tmp/scratch/T'', metadata_of (meta_of_file ''T'' ''text/plain''))],
           \<lparr>fs_dirs = {''/tmp/scratch'', ''/tmp''},
            fs_files = [(''/tmp/scratch/T'', ''data of T'')]\<rparr>,
           [Call (DriveGet (download_get_request ''T'')),
            Call (DriveNextChunk (GetMedia ''T'') 0),
            Call (DriveNextChunk (GetMedia ''T'') 1)])"
  by code_simp

lemma example_loader_failing:
  "simple_directory_reader (extract_text failing_host)
     \<lparr>fs_dirs = {''/tmp/scratch'', ''/tmp''},
      fs_files = [(''/tmp/scratch/T'', ''data of T'')]\<rparr>
     ''/tmp/scratch''
     (get_metadata [(Some ''/tmp/scratch/T'', metadata_of (meta_of_file ''T'' ''text/plain''))])
   = Inl (ExtractionError ''unreadable'')"
  by code_simp

lemma example_scratch_removed:
  "rmtree ''/tmp/scratch''
     \<lparr>fs_dirs = {''/tmp/scratch'', ''/tmp''},
      fs_files = [(''/tmp/scratch/T'', ''data of T'')]\<rparr> = tmp_fs"
  by code_simp

lemma example_chunks:
  "download_chunks (Suc (Suc 0)) example_service (GetMedia ''T'') 0 []
   = Some (Inr ''data of T'',
           [Call (DriveNextChunk (GetMedia ''T'') 0), Call (DriveNextChunk (GetMedia ''T'') 1)])"
  by code_simp

theorem failures_caught_at_boundary_witness:
  "get_fileids_meta (Suc (Suc 0)) broken_subfolder_service None (Some ''F'') None None None
     = Some (None, None,
             [Call (DriveList (make_list_request None (build_query ''F'' None None))),
              Call (DriveList (make_list_request None (build_query ''S'' None None))),
              Log (LogError enumeration_failed (HttpError ''500'')),
              Log (LogError enumeration_failed (TypeError ''NoneType object is not iterable''))])
   \<and> call_failed broken_subfolder_service
       (DriveList (make_list_request None (build_query ''S'' None None))) (HttpError ''500'')
   \<and> Log (LogError enumeration_failed (HttpError ''500''))
       \<in> set (snd (snd (the (get_fileids_meta (Suc (Suc 0)) broken_subfolder_service None
                                 (Some ''F'') None None None))))
   \<and> download_file (Suc (Suc 0)) (example_reader None None None) interrupted_service tmp_fs
       ''T'' ''/tmp/T''
     = Some (None, tmp_fs,
             [Call (DriveGet (download_get_request ''T'')),
              Call (DriveNextChunk (GetMedia ''T'') 0),
              Call (DriveNextChunk (GetMedia ''T'') 1),
              Log (LogError download_failed (HttpError ''connection reset''))])
   \<and> call_failed interrupted_service (DriveNextChunk (GetMedia ''T'') 1)
       (HttpError ''connection reset'')
   \<and> last (snd (snd (the (download_file (Suc (Suc 0)) (example_reader None None None)
                               interrupted_service tmp_fs ''T'' ''/tmp/T''))))
     = Log (LogError download_failed (HttpError ''connection reset''))
   \<and> (\<exists>docs fs' evs.
         load_data_fileids_meta (Suc (Suc 0)) example_host (example_reader None None None)
           interrupted_service tmp_fs (Some [meta_of_file ''T'' ''text/plain''])
         = Some (docs, fs', evs)
         \<and> Call (DriveNextChunk (GetMedia ''T'') 1) \<in> set evs
         \<and> Log (LogError download_failed (HttpError ''connection reset'')) \<in> set evs)
   \<and> load_data_fileids_meta (Suc (Suc 0)) failing_host (example_reader None None None)
       example_service tmp_fs (Some [meta_of_file ''T'' ''text/plain''])
     = Some (None, tmp_fs,
             [Call (DriveGet (download_get_request ''T'')),
              Call (DriveNextChunk (GetMedia ''T'') 0),
              Call (DriveNextChunk (GetMedia ''T'') 1),
              Log (LogError assembly_failed (ExtractionError ''unreadable''))])
   \<and> get_fileids_meta (Suc 0) failing_service None (Some ''F'') None None None
     = Some (None, None,
             [Call (DriveList (make_list_request None (build_query ''F'' None None))),
              Log (LogError enumeration_failed (HttpError ''503''))])
   \<and> get_fileids_meta (Suc 0) failing_service None None (Some ''T'') None None
     = Some (None, None,
             [Call (DriveGet \<lparr>gr_fileId = ''T'', gr_supportsAllDrives = True,
                              gr_fields = Some ''*''\<rparr>),
              Log (LogError enumeration_failed (HttpError ''503''))])
   \<and> download_file (Suc 0) (example_reader None None None) failing_service tmp_fs
       ''T'' ''/tmp/T''
     = Some (None, tmp_fs,
             [Call (DriveGet (download_get_request ''T'')),
              Log (LogError download_failed (HttpError ''503''))])
   \<and> download_file (Suc (Suc 0)) (example_reader None None None) example_service empty_fs
       ''T'' ''/nowhere/T''
     = Some (None, empty_fs,
             [Call (DriveGet (download_get_request ''T'')),
              Call (DriveNextChunk (GetMedia ''T'') 0),
              Call (DriveNextChunk (GetMedia ''T'') 1),
              Log (LogError download_failed (OSError ''FileNotFoundError''))])
   \<and> load_data_fileids_meta 0
       (example_host\<lparr>mkdtemp := (\<lambda>fs. Inl (OSError ''No space left on device''))\<rparr>)
       (example_reader None None None) example_service tmp_fs (Some [])
     = Some (None, tmp_fs,
             [Log (LogError assembly_failed (OSError ''No space left on device''))])"
proof -
  note b = failures_caught_at_boundary
  note b1 = b[THEN conjunct1, THEN mp]
  note b2 = b[THEN conjunct2, THEN conjunct1, THEN mp]
  note b3 = b[THEN conjunct2, THEN conjunct2, THEN conjunct1, THEN mp]
  note b4 = b[THEN conjunct2, THEN conjunct2, THEN conjunct2, THEN conjunct1, THEN mp]
  note b5 = b[THEN conjunct2, THEN conjunct2, THEN conjunct2, THEN conjunct2, THEN conjunct1,
              THEN mp]
  note b6 = b[THEN conjunct2, THEN conjunct2, THEN conjunct2, THEN conjunct2, THEN conjunct2,
              THEN conjunct1, THEN mp]
  note b7 = b[THEN conjunct2, THEN conjunct2, THEN conjunct2, THEN conjunct2, THEN conjunct2,
              THEN conjunct2, THEN conjunct1, THEN mp]
  note b8 = b[THEN conjunct2, THEN conjunct2, THEN conjunct2, THEN conjunct2, THEN conjunct2,
              THEN conjunct2, THEN conjunct2, THEN conjunct1, THEN mp]
  note b9 = b[THEN conjunct2, THEN conjunct2, THEN conjunct2, THEN conjunct2, THEN conjunct2,
              THEN conjunct2, THEN conjunct2, THEN conjunct2, THEN mp]
  let ?s = "DriveList (make_list_request None (build_query ''S'' None None))"
  let ?k = "DriveNextChunk (GetMedia ''T'') 1"
  have f1: "call_failed broken_subfolder_service ?s (HttpError ''500'')"
    by code_simp
  have m1: "Call ?s \<in> set
             [Call (DriveList (make_list_request None (build_query ''F'' None None))),
              Call ?s,
              Log (LogError enumeration_failed (HttpError ''500'')),
              Log (LogError enumeration_failed (TypeError ''NoneType object is not iterable''))]"
    by simp
  from b1[OF conjI[OF example_enumeration_nested_failing conjI[OF m1 f1]]]
  have n1: "Log (LogError enumeration_failed (HttpError ''500''))
       \<in> set (snd (snd (the (get_fileids_meta (Suc (Suc 0)) broken_subfolder_service None
                                 (Some ''F'') None None None))))"
    unfolding example_enumeration_nested_failing option.sel snd_conv by (rule conjunct2[THEN conjunct1])
  have f2: "call_failed interrupted_service ?k (HttpError ''connection reset'')"
    by (simp add: interrupted_service_def)
  have m2: "Call ?k \<in> set
             [Call (DriveGet (download_get_request ''T'')),
              Call (DriveNextChunk (GetMedia ''T'') 0),
              Call ?k,
              Log (LogError download_failed (HttpError ''connection reset''))]"
    by simp
  from b2[OF conjI[OF example_download_interrupted conjI[OF m2 f2]]]
  have n2: "last (snd (snd (the (download_file (Suc (Suc 0)) (example_reader None None None)
                               interrupted_service tmp_fs ''T'' ''/tmp/T''))))
     = Log (LogError download_failed (HttpError ''connection reset''))"
    unfolding example_download_interrupted option.sel snd_conv
    by (rule conjunct2[THEN conjunct2])
  from example_assembly_interrupted obtain docs fs' evs where
    run: "load_data_fileids_meta (Suc (Suc 0)) example_host (example_reader None None None)
           interrupted_service tmp_fs (Some [meta_of_file ''T'' ''text/plain''])
         = Some (docs, fs', evs)"
    and tk: "take 3 evs = [Call (DriveGet (download_get_request ''T'')),
            Call (DriveNextChunk (GetMedia ''T'') 0), Call ?k]"
    by auto
  have "Call ?k \<in> set (take 3 evs)" unfolding tk by simp
  then have m3: "Call ?k \<in> set evs" by (rule in_set_takeD)
  from b3[OF conjI[OF run conjI[OF m3 f2]]] run m3
  have n3: "\<exists>docs fs' evs.
         load_data_fileids_meta (Suc (Suc 0)) example_host (example_reader None None None)
           interrupted_service tmp_fs (Some [meta_of_file ''T'' ''text/plain''])
         = Some (docs, fs', evs)
         \<and> Call ?k \<in> set evs
         \<and> Log (LogError download_failed (HttpError ''connection reset'')) \<in> set evs"
    by blast
  have mk: "mkdtemp failing_host tmp_fs = Inr ''/tmp/scratch''"
    by (simp add: failing_host_def)
  from b4[OF conjI[OF mk conjI[OF example_staging example_loader_failing]]]
  have n4: "load_data_fileids_meta (Suc (Suc 0)) failing_host (example_reader None None None)
       example_service tmp_fs (Some [meta_of_file ''T'' ''text/plain''])
     = Some (None, tmp_fs,
             [Call (DriveGet (download_get_request ''T'')),
              Call (DriveNextChunk (GetMedia ''T'') 0),
              Call (DriveNextChunk (GetMedia ''T'') 1),
              Log (LogError assembly_failed (ExtractionError ''unreadable''))])"
    by (simp add: example_scratch_removed)
  have l: "files_list failing_service (make_list_request None
             (build_query ''F'' (keep_recursiveness None) None)) = Inl (HttpError ''503'')"
    by (simp add: failing_service_def)
  have k: "keep_recursiveness None = None" by (simp add: keep_recursiveness_def)
  have n5: "get_fileids_meta (Suc 0) failing_service None (Some ''F'') None None None
     = Some (None, None,
             [Call (DriveList (make_list_request None (build_query ''F'' None None))),
              Log (LogError enumeration_failed (HttpError ''503''))])"
    using b5[of "''F''" failing_service None None None "HttpError ''503''" 0 None, OF conjI[OF _ l]]
    by (simp add: k)
  have g: "files_get failing_service \<lparr>gr_fileId = ''T'', gr_supportsAllDrives = True,
             gr_fields = Some ''*''\<rparr> = Inl (HttpError ''503'')"
    by (simp add: failing_service_def)
  note n6 = b6[OF g, of 0 None None None]
  have g': "files_get failing_service (download_get_request ''T'') = Inl (HttpError ''503'')"
    by (simp add: failing_service_def)
  note n7 = b7[OF g', of "Suc 0" "example_reader None None None" tmp_fs "''/tmp/T''"]
  have t: "files_get example_service (download_get_request ''T'')
             = Inr (plain_file ''T'' ''text/plain'')"
    by (simp add: example_service_def download_get_request_def example_files_def)
  have tg: "download_target (example_reader None None None) (plain_file ''T'' ''text/plain'')
              ''T'' ''/nowhere/T'' = (''/nowhere/T'', GetMedia ''T'')"
    by code_simp
  have w: "open_write empty_fs ''/nowhere/T'' ''data of T'' = Inl (OSError ''FileNotFoundError'')"
    by code_simp
  have ch: "download_chunks (Suc (Suc 0)) example_service
              (snd (download_target (example_reader None None None)
                      (plain_file ''T'' ''text/plain'') ''T'' ''/nowhere/T'')) 0 []
            = Some (Inr ''data of T'',
                    [Call (DriveNextChunk (GetMedia ''T'') 0),
                     Call (DriveNextChunk (GetMedia ''T'') 1)])"
    unfolding tg snd_conv by (rule example_chunks)
  have w': "open_write empty_fs
              (fst (download_target (example_reader None None None)
                      (plain_file ''T'' ''text/plain'') ''T'' ''/nowhere/T'')) ''data of T''
            = Inl (OSError ''FileNotFoundError'')"
    unfolding tg fst_conv by (rule w)
  from b8[OF conjI[OF t conjI[OF ch w']]]
  have n8: "download_file (Suc (Suc 0)) (example_reader None None None) example_service empty_fs
       ''T'' ''/nowhere/T''
     = Some (None, empty_fs,
             [Call (DriveGet (download_get_request ''T'')),
              Call (DriveNextChunk (GetMedia ''T'') 0),
              Call (DriveNextChunk (GetMedia ''T'') 1),
              Log (LogError download_failed (OSError ''FileNotFoundError''))])"
    by simp
  have m: "mkdtemp (example_host\<lparr>mkdtemp := (\<lambda>fs. Inl (OSError ''No space left on device''))\<rparr>)
             tmp_fs = Inl (OSError ''No space left on device'')"
    by simp
  note n9 = b9[OF m, of 0 "example_reader None None None" example_service "Some []"]
  from example_enumeration_nested_failing f1 n1 example_download_interrupted f2 n2
    n3 n4 n5 n6 n7 n8 n9
  show ?thesis by (intro conjI)
qed

section \<open>Orchestration without a selector\<close>

lemma consent_calls: "ev \<in> set (snd (consent lib rd)) \<Longrightarrow> ev = Call ConsentFlow"
  by (auto simp: consent_def split: sum.splits)

lemma refresh_or_consent_calls:
  "ev \<in> set (snd (refresh_or_consent lib rd creds))
     \<Longrightarrow> ev = Call TokenRefresh \<or> ev = Call ConsentFlow"
  by (auto simp: refresh_or_consent_def dest: consent_calls split: option.splits if_splits)

lemma login_calls:
  "ev \<in> set (snd (snd (login lib rd fs creds)))
     \<Longrightarrow> ev = Call TokenRefresh \<or> ev = Call ConsentFlow"
proof -
  assume a: "ev \<in> set (snd (snd (login lib rd fs creds)))"
  obtain r evs where rc: "refresh_or_consent lib rd creds = (r, evs)"
    by (cases "refresh_or_consent lib rd creds") auto
  from a rc have "ev \<in> set evs"
    by (auto simp: login_def split: option.splits sum.splits if_splits)
  with refresh_or_consent_calls[of ev lib rd creds] rc show ?thesis by simp
qed

lemma get_credentials_calls:
  assumes "get_credentials lib rd fs = (r, fs1, evs)" and "ev \<in> set evs"
  shows "ev = Call TokenRefresh \<or> ev = Call ConsentFlow"
proof -
  from assms have "ev \<in> set (snd (snd (get_credentials lib rd fs)))" by simp
  then show ?thesis
    by (auto simp: get_credentials_def dest: login_calls split: option.splits sum.splits)
qed

lemma get_credentials_saved_valid:
  assumes "authorized_user_info rd = Some info"
    and "from_authorized_user_info lib info SCOPES = Inr c" and "valid c"
  shows "get_credentials lib rd fs = (Inr (User c), fs, [])"
  using assms by (simp add: get_credentials_def login_def)

lemma get_credentials_service_account:
  assumes "authorized_user_info rd = None" and "service_account_key rd = Some key"
    and "from_service_account_info lib key SCOPES = Inr sc"
  shows "get_credentials lib rd fs = (Inr (ServiceAccount sc), fs, [])"
  using assms by (simp add: get_credentials_def)

lemma get_credentials_remote_only:
  assumes "get_credentials lib rd fs = (r, fs1, evs)" and "evs \<noteq> []"
  shows "(authorized_user_info rd = None \<and> service_account_key rd = None)
         \<or> (\<exists>info c0. authorized_user_info rd = Some info
               \<and> from_authorized_user_info lib info SCOPES = Inr c0 \<and> \<not> valid c0)"
  using assms
  by (auto simp: get_credentials_def login_def split: option.splits sum.splits if_splits)

text \<open>
  C7, as the claim states it, fails: credential resolution runs before the selector is
  looked at. With no saved user info and no service-account key the consent flow is run,
  a remote interaction, and when the user denies access its exception leaves \<open>load_data\<close>:
  the result is an error, not the empty list. With a saved, expired credential the empty
  list is returned, after the token has been refreshed remotely and the refreshed
  credential written to the token file.
\<close>

theorem no_selector_counterexample:
  "load_data (Suc 0) example_host denied_lib (example_reader None None None) empty_fs
     None None None None None
   = Some (Inl (AuthError ''access_denied''), example_reader None None None, None, empty_fs,
           [Call ConsentFlow])
   \<and> load_data (Suc 0) example_host example_lib (example_reader None (Some saved_expired) None)
       empty_fs None None None None None
   = Some (Inr (Some []),
           (example_reader None (Some saved_expired) None)
             \<lparr>priv_creds := Some (User \<lparr>token = Some ''refreshed'', expired = False,
                                         refresh_token = Some ''r0''\<rparr>)\<rparr>,
           None, empty_fs\<lparr>fs_files := [(''token.json'', ''refreshed'')]\<rparr>,
           [Call TokenRefresh, Log (LogWarning selector_warning)])"
  by code_simp

text \<open>
  C7, amended. Called with neither a folder id nor any file ids, \<open>load_data\<close> returns what
  credential resolution raises if it raises; otherwise it returns the empty list, stores
  the credential, appends one warning to the log and sends nothing to the Drive API: the
  only remote interactions are the token refresh or the consent flow of the credential
  resolution. This holds for every fuel, no loop being entered.

  There is no remote interaction at all, and the file system is left as it was, when the
  saved user info gives a valid credential and when, without saved user info, the
  service-account key gives a service credential: the log then holds the warning alone.
  Conversely a run with a remote interaction is one of a reader with neither saved user
  info nor a service-account key, or of one whose saved user info gives a credential that
  is not valid (a service-account key does not prevent the refresh or the consent flow
  then).
\<close>

theorem no_selector_returns_empty:
  assumes "\<not> truthy_str folder_id" and "\<not> truthy_list file_ids"
  shows "(\<forall>c fs1 evs. get_credentials lib rd fs = (Inr c, fs1, evs) \<longrightarrow>
            load_data n h lib rd fs drive_id folder_id file_ids mime_types query_string
              = Some (Inr (Some []), rd\<lparr>priv_creds := Some c\<rparr>, mime_types, fs1,
                      evs @ [Log (LogWarning selector_warning)])
            \<and> (\<forall>call. Call call \<in> set (evs @ [Log (LogWarning selector_warning)])
                  \<longrightarrow> call = TokenRefresh \<or> call = ConsentFlow))
       \<and> (\<forall>e fs1 evs. get_credentials lib rd fs = (Inl e, fs1, evs) \<longrightarrow>
            load_data n h lib rd fs drive_id folder_id file_ids mime_types query_string
              = Some (Inl e, rd, mime_types, fs1, evs))
       \<and> (\<forall>info c. authorized_user_info rd = Some info
              \<and> from_authorized_user_info lib info SCOPES = Inr c \<and> valid c \<longrightarrow>
            load_data n h lib rd fs drive_id folder_id file_ids mime_types query_string
              = Some (Inr (Some []), rd\<lparr>priv_creds := Some (User c)\<rparr>, mime_types, fs,
                      [Log (LogWarning selector_warning)]))
       \<and> (\<forall>key sc. authorized_user_info rd = None \<and> service_account_key rd = Some key
              \<and> from_service_account_info lib key SCOPES = Inr sc \<longrightarrow>
            load_data n h lib rd fs drive_id folder_id file_ids mime_types query_string
              = Some (Inr (Some []), rd\<lparr>priv_creds := Some (ServiceAccount sc)\<rparr>, mime_types,
                      fs, [Log (LogWarning selector_warning)]))
       \<and> (\<forall>r rd' ms' fs1 evs call.
            load_data n h lib rd fs drive_id folder_id file_ids mime_types query_string
              = Some (r, rd', ms', fs1, evs) \<and> Call call \<in> set evs \<longrightarrow>
            (call = TokenRefresh \<or> call = ConsentFlow)
            \<and> ((authorized_user_info rd = None \<and> service_account_key rd = None)
                \<or> (\<exists>info c0. authorized_user_info rd = Some info
                      \<and> from_authorized_user_info lib info SCOPES = Inr c0 \<and> \<not> valid c0)))"
proof -
  have ok: "load_data n h lib rd fs drive_id folder_id file_ids mime_types query_string
              = Some (Inr (Some []), rd\<lparr>priv_creds := Some c\<rparr>, mime_types, fs1,
                      evs @ [Log (LogWarning selector_warning)])"
    if "get_credentials lib rd fs = (Inr c, fs1, evs)" for c fs1 evs
    using that assms by (simp add: load_data_def Let_def)
  have ko: "load_data n h lib rd fs drive_id folder_id file_ids mime_types query_string
              = Some (Inl e, rd, mime_types, fs1, evs)"
    if "get_credentials lib rd fs = (Inl e, fs1, evs)" for e fs1 evs
    using that by (simp add: load_data_def)
  have calls: "call = TokenRefresh \<or> call = ConsentFlow"
    if "get_credentials lib rd fs = (Inr c, fs1, evs)"
      and "Call call \<in> set (evs @ [Log (LogWarning selector_warning)])" for c fs1 evs call
  proof -
    from that(2) have "Call call \<in> set evs" by simp
    from get_credentials_calls[OF that(1) this] show ?thesis by simp
  qed
  have saved: "load_data n h lib rd fs drive_id folder_id file_ids mime_types query_string
              = Some (Inr (Some []), rd\<lparr>priv_creds := Some (User c)\<rparr>, mime_types, fs,
                      [Log (LogWarning selector_warning)])"
    if "authorized_user_info rd = Some info \<and> from_authorized_user_info lib info SCOPES = Inr c
          \<and> valid c" for info c
  proof -
    from that have "get_credentials lib rd fs = (Inr (User c), fs, [])"
      by (simp add: get_credentials_saved_valid)
    from ok[OF this] show ?thesis by simp
  qed
  have sa: "load_data n h lib rd fs drive_id folder_id file_ids mime_types query_string
              = Some (Inr (Some []), rd\<lparr>priv_creds := Some (ServiceAccount sc)\<rparr>, mime_types,
                      fs, [Log (LogWarning selector_warning)])"
    if "authorized_user_info rd = None \<and> service_account_key rd = Some key
          \<and> from_service_account_info lib key SCOPES = Inr sc" for key sc
  proof -
    from that have "get_credentials lib rd fs = (Inr (ServiceAccount sc), fs, [])"
      by (simp add: get_credentials_service_account)
    from ok[OF this] show ?thesis by simp
  qed
  have remote: "(call = TokenRefresh \<or> call = ConsentFlow)
            \<and> ((authorized_user_info rd = None \<and> service_account_key rd = None)
                \<or> (\<exists>info c0. authorized_user_info rd = Some info
                      \<and> from_authorized_user_info lib info SCOPES = Inr c0 \<and> \<not> valid c0))"
    if "load_data n h lib rd fs drive_id folder_id file_ids mime_types query_string
          = Some (r, rd', ms', fs1, evs) \<and> Call call \<in> set evs" for r rd' ms' fs1 evs call
  proof -
    obtain r0 fs0 evs0 where gc: "get_credentials lib rd fs = (r0, fs0, evs0)"
      by (cases "get_credentials lib rd fs") auto
    have "Call call \<in> set evs0"
    proof (cases r0)
      case (Inl e)
      with gc ko[of e fs0 evs0] that show ?thesis by simp
    next
      case (Inr c)
      with gc ok[of c fs0 evs0] that show ?thesis by auto
    qed
    then have ne: "evs0 \<noteq> []" by auto
    from get_credentials_calls[OF gc \<open>Call call \<in> set evs0\<close>]
      get_credentials_remote_only[OF gc ne]
    show ?thesis by simp
  qed
  from ok calls ko saved sa remote show ?thesis by blast
qed

lemma example_consent:
  "get_credentials example_lib (example_reader None None None) empty_fs
   = (Inr (User \<lparr>token = Some ''granted'', expired = False, refresh_token = Some ''r1''\<rparr>),
      empty_fs\<lparr>fs_files := [(''token.json'', ''granted'')]\<rparr>, [Call ConsentFlow])"
  by code_simp

lemma example_denied:
  "get_credentials denied_lib (example_reader None None None) empty_fs
   = (Inl (AuthError ''access_denied''), empty_fs, [Call ConsentFlow])"
  by code_simp

lemma example_saved_valid:
  "authorized_user_info (example_reader None (Some saved_valid) None) = Some saved_valid
   \<and> from_authorized_user_info example_lib saved_valid SCOPES
     = Inr \<lparr>token = Some ''t0'', expired = False, refresh_token = None\<rparr>
   \<and> valid \<lparr>token = Some ''t0'', expired = False, refresh_token = None\<rparr>"
  by (simp add: example_reader_def example_lib_def saved_valid_def valid_def)

lemma example_service_account:
  "authorized_user_info (example_reader None None (Some [(''type'', ''service_account'')])) = None
   \<and> service_account_key (example_reader None None (Some [(''type'', ''service_account'')]))
     = Some [(''type'', ''service_account'')]
   \<and> from_service_account_info example_lib [(''type'', ''service_account'')] SCOPES
     = Inr \<lparr>sa_info = [(''type'', ''service_account'')], sa_scopes = SCOPES\<rparr>"
  by (simp add: example_reader_def example_lib_def)

lemma example_refresh_run:
  "load_data 0 example_host example_lib (example_reader None (Some saved_expired) None)
       empty_fs None (Some []) (Some []) None None
   = Some (Inr (Some []),
           (example_reader None (Some saved_expired) None)
             \<lparr>priv_creds := Some (User \<lparr>token = Some ''refreshed'', expired = False,
                                         refresh_token = Some ''r0''\<rparr>)\<rparr>,
           None, empty_fs\<lparr>fs_files := [(''token.json'', ''refreshed'')]\<rparr>,
           [Call TokenRefresh, Log (LogWarning selector_warning)])
   \<and> Call TokenRefresh \<in> set [Call TokenRefresh, Log (LogWarning selector_warning)]"
  by code_simp

theorem no_selector_returns_empty_witness:
  "\<not> truthy_str (Some []) \<and> \<not> truthy_list (Some ([] :: string list))
   \<and> load_data 0 example_host example_lib (example_reader None None None) empty_fs
       None (Some []) (Some []) None None
     = Some (Inr (Some []),
             (example_reader None None None)
               \<lparr>priv_creds := Some (User \<lparr>token = Some ''granted'', expired = False,
                                           refresh_token = Some ''r1''\<rparr>)\<rparr>,
             None, empty_fs\<lparr>fs_files := [(''token.json'', ''granted'')]\<rparr>,
             [Call ConsentFlow, Log (LogWarning selector_warning)])
   \<and> load_data 0 example_host denied_lib (example_reader None None None) empty_fs
       None (Some []) (Some []) None None
     = Some (Inl (AuthError ''access_denied''), example_reader None None None, None, empty_fs,
             [Call ConsentFlow])
   \<and> load_data 0 example_host example_lib (example_reader None (Some saved_valid) None) empty_fs
       None (Some []) (Some []) None None
     = Some (Inr (Some []),
             (example_reader None (Some saved_valid) None)
               \<lparr>priv_creds := Some (User \<lparr>token = Some ''t0'', expired = False,
                                           refresh_token = None\<rparr>)\<rparr>,
             None, empty_fs, [Log (LogWarning selector_warning)])
   \<and> load_data 0 example_host example_lib
       (example_reader None None (Some [(''type'', ''service_account'')])) empty_fs
       None (Some []) (Some []) None None
     = Some (Inr (Some []),
             (example_reader None None (Some [(''type'', ''service_account'')]))
               \<lparr>priv_creds := Some (ServiceAccount
                  \<lparr>sa_info = [(''type'', ''service_account'')], sa_scopes = SCOPES\<rparr>)\<rparr>,
             None, empty_fs, [Log (LogWarning selector_warning)])
   \<and> (\<exists>c0. from_authorized_user_info example_lib saved_expired SCOPES = Inr c0 \<and> \<not> valid c0)"
proof -
  have h: "\<not> truthy_str (Some [])" "\<not> truthy_list (Some ([] :: string list))" by simp_all
  note inst = no_selector_returns_empty[OF h]
  note ok = inst[THEN conjunct1, rule_format, OF example_consent, THEN conjunct1]
  note ko = inst[THEN conjunct2, THEN conjunct1, rule_format, OF example_denied]
  note sv = inst[THEN conjunct2, THEN conjunct2, THEN conjunct1, rule_format,
                 OF example_saved_valid]
  note sa = inst[THEN conjunct2, THEN conjunct2, THEN conjunct2, THEN conjunct1, rule_format,
                 OF example_service_account]
  note rm = inst[THEN conjunct2, THEN conjunct2, THEN conjunct2, THEN conjunct2, rule_format,
                 OF example_refresh_run, THEN conjunct2]
  have "\<exists>c0. from_authorized_user_info example_lib saved_expired SCOPES = Inr c0 \<and> \<not> valid c0"
    using rm by (simp add: example_reader_def)
  with h ok[of 0 example_host None None None] ko[of 0 example_host None None None]
    sv[where n = 0 and h = example_host and fs = empty_fs and drive_id = None
         and mime_types = None and query_string = None]
    sa[where n = 0 and h = example_host and fs = empty_fs and drive_id = None
         and mime_types = None and query_string = None]
  show ?thesis by simp
qed

end
